theory Spec2Isabelle
  imports Main "HOL-Library.Sublist"
begin

section \<open>The OpenAI tool-calling loop of the TypeScript full LLM example\<close>

text \<open>
  The program verified here is the command loop \<^verbatim>\<open>main\<close> of the TypeScript
  "full LLM example" and its helpers \<^verbatim>\<open>formatToolsForPrompt\<close> and
  \<^verbatim>\<open>getOpenAIResponse\<close>. The UTCP client, the OpenAI client and the JavaScript
  built-ins \<^verbatim>\<open>JSON.parse\<close> and \<^verbatim>\<open>JSON.stringify\<close> are collaborators of the
  program: they are parameters of the model (the record \<open>env\<close>), and every general
  theorem below holds for all of them. What the program sends to them is observed by
  collaborators that keep a record of the calls they receive (\<open>recording\<close>).
\<close>

subsection \<open>Data\<close>

text \<open>
  A text is a list of 8-bit characters. \<^verbatim>\<open>ChatCompletionMessageParam\<close>, as far as
  the program builds it:
\<close>

datatype role = system | user | assistant

record message =
  role :: role
  content :: string

text \<open>
  A value produced by \<^verbatim>\<open>JSON.parse\<close>. A number is kept as the text JavaScript
  prints for it; an object keeps its members in source order (a later member with the
  same key overrides an earlier one).
\<close>

datatype json =
    JNull
  | JBool bool
  | JNum string
  | JStr string
  | JArr "json list"
  | JObj "(string \<times> json) list"

text \<open>The fields of the SDK's \<^verbatim>\<open>Tool\<close> that the examples name.\<close>

record tool =
  name :: string
  description :: string
  tags :: "string list"

text \<open>
  What a \<^verbatim>\<open>catch (e)\<close> receives: an \<^verbatim>\<open>Error\<close> object with its message, or
  another thrown value with its \<^verbatim>\<open>String(e)\<close> rendering, or a value of which no
  message can be built: \<^verbatim>\<open>String(e)\<close> throws (as for an object without a
  prototype), or the message of the \<^verbatim>\<open>Error\<close> cannot be converted to text.
\<close>

datatype thrown = ErrorObject string | OtherValue string | Unprintable

text \<open>
  The part of a chat completion the program reads: for each element of
  \<^verbatim>\<open>response.choices\<close>, its \<^verbatim>\<open>message.content\<close> (\<open>None\<close> for \<^verbatim>\<open>null\<close>).
\<close>

type_synonym completion = "string option list"

text \<open>
  The collaborators. The remote ones take and return a world \<open>'w\<close>, so that two calls
  with equal arguments may answer differently; \<open>Inl\<close> is a rejected promise or a thrown
  exception. \<open>'r\<close> is whatever \<^verbatim>\<open>call_tool\<close> resolves to, and
  \<open>JSON_stringify_result\<close> is \<^verbatim>\<open>JSON.stringify\<close> on it: the text that the template
  literal then prints, or the exception. \<open>JSON_parse\<close> is \<open>None\<close> where
  \<^verbatim>\<open>JSON.parse\<close> throws.
\<close>

record ('w, 'r) env =
  search_tools :: "string \<Rightarrow> nat \<Rightarrow> 'w \<Rightarrow> (thrown + tool list) \<times> 'w"
  chat_completions_create :: "message list \<Rightarrow> 'w \<Rightarrow> (thrown + completion) \<times> 'w"
  call_tool :: "json \<Rightarrow> json \<Rightarrow> 'w \<Rightarrow> (thrown + 'r) \<times> 'w"
  JSON_parse :: "string \<Rightarrow> json option"
  JSON_stringify_result :: "'r \<Rightarrow> thrown + string"
  JSON_stringify_tool :: "tool \<Rightarrow> string"

text \<open>The state of a session: the array \<^verbatim>\<open>conversationHistory\<close>, and the world.\<close>

record 'w session =
  history :: "message list"
  world :: 'w

text \<open>
  A call that a remote collaborator receives, with its arguments. A recording
  collaborator adds each call it receives to a list that it keeps in the world, and
  answers as the collaborator it stands for. The list is written by the collaborators
  only: it holds what the program has passed to them.
\<close>

datatype event =
    SearchTools string nat
  | ChatCompletion "message list"
  | CallTool json json

definition recording :: "('w, 'r) env \<Rightarrow> ('w \<times> event list, 'r) env" where
  "recording env =
     \<lparr>search_tools = (\<lambda>query limit (w, calls).
        case search_tools env query limit w of
          (answer, w') \<Rightarrow> (answer, (w', calls @ [SearchTools query limit]))),
      chat_completions_create = (\<lambda>request (w, calls).
        case chat_completions_create env request w of
          (answer, w') \<Rightarrow> (answer, (w', calls @ [ChatCompletion request]))),
      call_tool = (\<lambda>toolName arguments' (w, calls).
        case call_tool env toolName arguments' w of
          (answer, w') \<Rightarrow> (answer, (w', calls @ [CallTool toolName arguments']))),
      JSON_parse = JSON_parse env,
      JSON_stringify_result = JSON_stringify_result env,
      JSON_stringify_tool = JSON_stringify_tool env\<rparr>"

text \<open>
  How a turn of the loop ends. The first three print the assistant's text and go
  back to the prompt; \<open>Threw\<close> is an exception that leaves the \<^verbatim>\<open>while\<close> loop.
  \<^item> \<open>Reply t\<close>: \<^verbatim>\<open>Assistant: t\<close> is printed, and the prompt and the response
    \<open>t\<close> are pushed once. The response asked for no tool, or the branch of the tool
    call threw before its first push (when it printed the tool name, or when it built
    the message of the tool's exception).
  \<^item> \<open>Interpreted t\<close>: a tool was called and the follow-up query answered \<open>t\<close>;
    \<^verbatim>\<open>Assistant's interpretation: t\<close> is printed.
  \<^item> \<open>Recovered t\<close>: a tool was called, the follow-up query threw, and the
    \<^verbatim>\<open>catch\<close> around \<^verbatim>\<open>JSON.parse\<close> printed \<^verbatim>\<open>Assistant: t\<close>.
\<close>

datatype turn_result =
    Reply string
  | Interpreted string
  | Recovered string
  | Threw thrown

datatype ending = AwaitingInput | Exited | Crashed thrown

subsection \<open>Helpers of the program\<close>

text \<open>
  \<^verbatim>\<open>JSON.stringify(tools, null, 2)\<close> on an array: \<^verbatim>\<open>[]\<close> when it is empty, and
  otherwise the elements, each on its own lines and indented by two spaces, between
  brackets. \<open>JSON_stringify_tool\<close> is the text of one element at that indentation.
\<close>

fun join_lines :: "string list \<Rightarrow> string" where
  "join_lines [] = []"
| "join_lines [x] = x"
| "join_lines (x # y # ys) = x @ '',\<newline>  '' @ join_lines (y # ys)"

definition formatToolsForPrompt :: "('w, 'r) env \<Rightarrow> tool list \<Rightarrow> string" where
  "formatToolsForPrompt env tools =
     (if tools = [] then ''[]''
      else ''[\<newline>  '' @ join_lines (map (JSON_stringify_tool env) tools) @ ''\<newline>]'')"

text \<open>
  \<^verbatim>\<open>getOpenAIResponse\<close>: \<^verbatim>\<open>response.choices[0]!!.message.content || ''\<close>. With no
  choice, reading \<^verbatim>\<open>.message\<close> of \<^verbatim>\<open>undefined\<close> throws a TypeError; a
  \<^verbatim>\<open>null\<close> or empty content becomes the empty string.
\<close>

definition no_choice :: thrown where
  "no_choice = ErrorObject ''Cannot read properties of undefined (reading 'message')''"

definition getOpenAIResponse ::
  "('w, 'r) env \<Rightarrow> message list \<Rightarrow> 'w \<Rightarrow> (thrown + string) \<times> 'w" where
  "getOpenAIResponse env messages w =
     (case chat_completions_create env messages w of
        (Inl e, w') \<Rightarrow> (Inl e, w')
      | (Inr response, w') \<Rightarrow>
          (case response of
             [] \<Rightarrow> (Inl no_choice, w')
           | c # _ \<Rightarrow> (Inr (case c of None \<Rightarrow> [] | Some t \<Rightarrow> t), w')))"

text \<open>The system prompt of a turn, around the tools' JSON text.\<close>

definition instructions :: string where
  \<open>instructions =
     ''You are a helpful assistant. When you need to use a tool, you MUST respond with a JSON object '' @
     ''with 'tool_name' and 'arguments' keys. Do not add any other text. The arguments must be a JSON object.'' @
     ''For example: {"tool_name": "some_tool.name", "arguments": {"arg1": "value1"}}. ''\<close>

definition systemPrompt :: "string \<Rightarrow> string" where
  "systemPrompt toolsJsonString =
     instructions @ ''Here are the available tools:\<newline>'' @ toolsJsonString"

subsection \<open>The two regular expressions\<close>

text \<open>
  A regular expression is tried at each start position from the left, and the first
  position with a match wins. \<open>lazy_until p s\<close> is the shortest text that \<^verbatim>\<open>.*?\<close>
  can take before \<open>p\<close> matches; \<open>greedy_close s\<close> is the longest text that \<^verbatim>\<open>.*\<close>
  can take before a closing brace (with the flag \<^verbatim>\<open>s\<close> the dot matches every
  character). Both functions of this section return capture group 1.
\<close>

fun lazy_until :: "string \<Rightarrow> string \<Rightarrow> string option" where
  "lazy_until p [] = (if p = [] then Some [] else None)"
| "lazy_until p (c # cs) =
     (if prefix p (c # cs) then Some []
      else map_option ((#) c) (lazy_until p cs))"

fun greedy_close :: "string \<Rightarrow> string option" where
  "greedy_close [] = None"
| "greedy_close (c # cs) =
     (case greedy_close cs of
        Some x \<Rightarrow> Some (c # x)
      | None \<Rightarrow> if c = CHR ''}'' then Some [] else None)"

definition fence_open :: string where
  "fence_open = ''```json\<newline>{''"

definition fence_close :: string where
  "fence_close = ''}\<newline>```''"

text \<open>\<^verbatim>\<open>/```json\n({.*?})\n```/s\<close>\<close>

fun match_fenced :: "string \<Rightarrow> string option" where
  "match_fenced [] = None"
| "match_fenced (c # cs) =
     (case (if prefix fence_open (c # cs)
            then lazy_until fence_close (drop (length fence_open) (c # cs))
            else None) of
        Some body \<Rightarrow> Some (''{'' @ body @ ''}'')
      | None \<Rightarrow> match_fenced cs)"

text \<open>\<^verbatim>\<open>/({.*})/s\<close>\<close>

fun match_braces :: "string \<Rightarrow> string option" where
  "match_braces [] = None"
| "match_braces (c # cs) =
     (case (if c = CHR ''{'' then greedy_close cs else None) of
        Some body \<Rightarrow> Some (''{'' @ body @ ''}'')
      | None \<Rightarrow> match_braces cs)"

definition jsonMatch :: "string \<Rightarrow> string option" where
  "jsonMatch assistantResponse =
     (case match_fenced assistantResponse of
        Some g \<Rightarrow> Some g
      | None \<Rightarrow> match_braces assistantResponse)"

subsection \<open>JavaScript operations on parsed JSON\<close>

text \<open>
  \<^verbatim>\<open>k in v\<close> for a key that is neither an array index nor a member of a built-in
  prototype (as \<^verbatim>\<open>"tool_name"\<close> and \<^verbatim>\<open>"arguments"\<close> are): \<open>None\<close> is the
  TypeError that \<^verbatim>\<open>in\<close> throws when its right operand is not an object.
\<close>

fun in_operator :: "string \<Rightarrow> json \<Rightarrow> bool option" where
  "in_operator k (JObj kvs) = Some (k \<in> set (map fst kvs))"
| "in_operator k (JArr xs) = Some False"
| "in_operator k v = None"

text \<open>\<^verbatim>\<open>v.k\<close> for such a key; \<open>None\<close> is \<^verbatim>\<open>undefined\<close>.\<close>

fun property :: "string \<Rightarrow> json \<Rightarrow> json option" where
  "property k (JObj kvs) = map_of (rev kvs) k"
| "property k v = None"

text \<open>
  \<^verbatim>\<open>String(v)\<close>, which a template literal applies: an array joins its elements
  with commas (\<^verbatim>\<open>null\<close> as the empty text); an object prints as
  \<^verbatim>\<open>[object Object]\<close>, unless it has a member \<^verbatim>\<open>toString\<close> of its own, which
  is not callable: then the conversion throws a TypeError (\<open>None\<close>).
\<close>

fun js_String :: "json \<Rightarrow> string option"
  and js_join :: "json list \<Rightarrow> string option" where
  "js_String JNull = Some ''null''"
| "js_String (JBool b) = Some (if b then ''true'' else ''false'')"
| "js_String (JNum t) = Some t"
| "js_String (JStr s) = Some s"
| "js_String (JArr xs) = js_join xs"
| "js_String (JObj kvs) =
     (if ''toString'' \<in> set (map fst kvs) then None else Some ''[object Object]'')"
| "js_join [] = Some []"
| "js_join (x # xs) =
     (case (if x = JNull then Some [] else js_String x) of
        None \<Rightarrow> None
      | Some t \<Rightarrow>
          if xs = [] then Some t
          else (case js_join xs of None \<Rightarrow> None | Some ts \<Rightarrow> Some (t @ '','' @ ts)))"

text \<open>
  \<^verbatim>\<open>e instanceof Error ? e.message : String(e)\<close> inside the template literal;
  \<open>None\<close> is the TypeError of the conversion.
\<close>

definition error_text :: "thrown \<Rightarrow> string option" where
  "error_text e =
     (case e of ErrorObject m \<Rightarrow> Some m | OtherValue s \<Rightarrow> Some s | Unprintable \<Rightarrow> None)"

text \<open>\<^verbatim>\<open>toLowerCase\<close> on the letters \<^verbatim>\<open>A\<close> to \<^verbatim>\<open>Z\<close>; other characters are kept.\<close>

definition toLowerCase_char :: "char \<Rightarrow> char" where
  "toLowerCase_char c =
     (let n = (of_char c :: nat) in if 65 \<le> n \<and> n \<le> 90 then char_of (n + 32) else c)"

definition toLowerCase :: "string \<Rightarrow> string" where
  "toLowerCase s = map toLowerCase_char s"

subsection \<open>One turn of the loop\<close>

text \<open>
  The three places that print \<^verbatim>\<open>Assistant: ...\<close> and push the user prompt and the
  assistant's response: the \<^verbatim>\<open>else\<close> of \<^verbatim>\<open>if (jsonMatch)\<close>, the \<^verbatim>\<open>else\<close> of the
  key test, and the \<^verbatim>\<open>catch\<close> around \<^verbatim>\<open>JSON.parse\<close>.
\<close>

definition push_exchange :: "string \<Rightarrow> string \<Rightarrow> 'w session \<Rightarrow> 'w session" where
  "push_exchange userPrompt assistantResponse s =
     s\<lparr>history := history s @
          [\<lparr>role = user, content = userPrompt\<rparr>,
           \<lparr>role = assistant, content = assistantResponse\<rparr>]\<rparr>"

text \<open>
  The key test and the two property reads: the tool name and the arguments of the
  tool call, when the parsed value has both keys. A TypeError of \<^verbatim>\<open>in\<close> is
  caught by the \<^verbatim>\<open>catch\<close> around \<^verbatim>\<open>JSON.parse\<close>, which does what the
  \<^verbatim>\<open>else\<close> branch does.
\<close>

definition directive :: "json \<Rightarrow> (json \<times> json) option" where
  "directive toolCallData =
     (if in_operator ''tool_name'' toolCallData = Some True \<and>
         in_operator ''arguments'' toolCallData = Some True
      then (case (property ''tool_name'' toolCallData,
                  property ''arguments'' toolCallData) of
              (Some toolName, Some arguments') \<Rightarrow> Some (toolName, arguments')
            | _ \<Rightarrow> None)
      else None)"

text \<open>
  From the regular-expression match to the key test: the tool call that the response
  asks for, if it asks for one. A SyntaxError of \<^verbatim>\<open>JSON.parse\<close> is \<open>None\<close> and
  is caught.
\<close>

definition toolCall :: "('w, 'r) env \<Rightarrow> string \<Rightarrow> (json \<times> json) option" where
  "toolCall env assistantResponse =
     (case jsonMatch assistantResponse of
        None \<Rightarrow> None
      | Some jsonString \<Rightarrow>
          (case JSON_parse env jsonString of
             None \<Rightarrow> None
           | Some toolCallData \<Rightarrow> directive toolCallData))"

text \<open>
  The inner \<^verbatim>\<open>try\<close> and its \<^verbatim>\<open>catch\<close>: the tool is called and its result
  serialised; if either throws, the tool output is the error message. \<open>nameText\<close> is
  the tool name as the template literal prints it. Building the error message can
  throw in its turn: then there is no tool output (\<open>None\<close>), and the exception goes
  to the \<^verbatim>\<open>catch\<close> around \<^verbatim>\<open>JSON.parse\<close>.
\<close>

definition errorMessage :: "string \<Rightarrow> thrown \<Rightarrow> string option" where
  "errorMessage nameText e =
     (case error_text e of
        None \<Rightarrow> None
      | Some reason \<Rightarrow> Some (''Error calling '' @ nameText @ '': '' @ reason))"

definition toolOutput ::
  "('w, 'r) env \<Rightarrow> json \<Rightarrow> json \<Rightarrow> string \<Rightarrow> 'w \<Rightarrow> string option \<times> 'w" where
  "toolOutput env toolName arguments' nameText w =
     (case call_tool env toolName arguments' w of
        (Inl e, w') \<Rightarrow> (errorMessage nameText e, w')
      | (Inr result, w') \<Rightarrow>
          (case JSON_stringify_result env result of
             Inl e \<Rightarrow> (errorMessage nameText e, w')
           | Inr text \<Rightarrow> (Some text, w')))"

definition systemMessage :: "('w, 'r) env \<Rightarrow> tool list \<Rightarrow> message" where
  "systemMessage env relevantTools =
     \<lparr>role = system, content = systemPrompt (formatToolsForPrompt env relevantTools)\<rparr>"

text \<open>The two message lists sent to the model: \<^verbatim>\<open>messages\<close> and \<^verbatim>\<open>followUpMessages\<close>.\<close>

definition messages :: "message \<Rightarrow> message list \<Rightarrow> string \<Rightarrow> message list" where
  "messages sysMessage conversationHistory userPrompt =
     sysMessage # conversationHistory @ [\<lparr>role = user, content = userPrompt\<rparr>]"

definition followUpMessages :: "message \<Rightarrow> message list \<Rightarrow> string \<Rightarrow> message list" where
  "followUpMessages sysMessage conversationHistory output =
     sysMessage # conversationHistory @
     [\<lparr>role = user, content = ''Tool output: '' @ output\<rparr>]"

text \<open>
  The branch of a tool call. Printing the tool name converts it to text, which can
  throw; the exception is caught by the \<^verbatim>\<open>catch\<close> around \<^verbatim>\<open>JSON.parse\<close>. So is
  an exception from building the error message of a failing tool, and there is no
  follow-up query then. So is an exception of the follow-up query, after the user
  prompt and the response have been pushed: the \<^verbatim>\<open>catch\<close> pushes them again.
\<close>

definition toolBranch ::
  "('w, 'r) env \<Rightarrow> message \<Rightarrow> string \<Rightarrow> string \<Rightarrow> json \<Rightarrow> json \<Rightarrow> 'w session \<Rightarrow>
   turn_result \<times> 'w session" where
  "toolBranch env sysMessage userPrompt assistantResponse toolName arguments' s =
     (case js_String toolName of
        None \<Rightarrow> (Reply assistantResponse, push_exchange userPrompt assistantResponse s)
      | Some nameText \<Rightarrow>
          (case toolOutput env toolName arguments' nameText (world s) of
             (None, w1) \<Rightarrow>
               (Reply assistantResponse,
                push_exchange userPrompt assistantResponse (s\<lparr>world := w1\<rparr>))
           | (Some output, w1) \<Rightarrow>
               let s1 = push_exchange userPrompt assistantResponse (s\<lparr>world := w1\<rparr>);
                   followUp = followUpMessages sysMessage (history s1) output
               in (case getOpenAIResponse env followUp w1 of
                     (Inr finalResponse, w2) \<Rightarrow>
                       (Interpreted finalResponse,
                        s1\<lparr>history := history s1 @
                              [\<lparr>role = assistant, content = finalResponse\<rparr>],
                            world := w2\<rparr>)
                   | (Inl e, w2) \<Rightarrow>
                       (Recovered assistantResponse,
                        push_exchange userPrompt assistantResponse (s1\<lparr>world := w2\<rparr>)))))"

text \<open>The body of the \<^verbatim>\<open>while\<close> loop after the exit test.\<close>

definition turn ::
  "('w, 'r) env \<Rightarrow> string \<Rightarrow> 'w session \<Rightarrow> turn_result \<times> 'w session" where
  "turn env userPrompt s =
     (case search_tools env userPrompt 10 (world s) of
        (Inl e, w1) \<Rightarrow> (Threw e, s\<lparr>world := w1\<rparr>)
      | (Inr relevantTools, w1) \<Rightarrow>
          let sysMessage = systemMessage env relevantTools;
              query = messages sysMessage (history s) userPrompt
          in (case getOpenAIResponse env query w1 of
                (Inl e, w2) \<Rightarrow> (Threw e, s\<lparr>world := w2\<rparr>)
              | (Inr assistantResponse, w2) \<Rightarrow>
                  (case toolCall env assistantResponse of
                     None \<Rightarrow>
                       (Reply assistantResponse,
                        push_exchange userPrompt assistantResponse (s\<lparr>world := w2\<rparr>))
                   | Some (toolName, arguments') \<Rightarrow>
                       toolBranch env sysMessage userPrompt assistantResponse
                         toolName arguments' (s\<lparr>world := w2\<rparr>))))"

subsection \<open>The session\<close>

text \<open>
  The \<^verbatim>\<open>while (true)\<close> loop, on the lines read so far: \<^verbatim>\<open>exit\<close> or \<^verbatim>\<open>quit\<close>
  leaves the loop; an exception of a turn leaves \<^verbatim>\<open>main\<close>, whose caller prints it
  and ends the process with status 1; when the lines are used up the session waits
  for the next one. The results of the turns are returned in order.
\<close>

fun run ::
  "('w, 'r) env \<Rightarrow> string list \<Rightarrow> 'w session \<Rightarrow> turn_result list \<times> ending \<times> 'w session" where
  "run env [] s = ([], AwaitingInput, s)"
| "run env (userPrompt # rest) s =
     (if toLowerCase userPrompt = ''exit'' \<or> toLowerCase userPrompt = ''quit''
      then ([], Exited, s)
      else (case turn env userPrompt s of
              (Threw e, s') \<Rightarrow> ([Threw e], Crashed e, s')
            | (r, s') \<Rightarrow> (case run env rest s' of (rs, fin, s'') \<Rightarrow> (r # rs, fin, s''))))"

text \<open>The session at the start of \<^verbatim>\<open>main\<close>'s loop: an empty history.\<close>

definition start :: "'w \<Rightarrow> 'w session" where
  "start w = \<lparr>history = [], world = w\<rparr>"

text \<open>A session whose collaborators record from now on.\<close>

definition recorded :: "'w session \<Rightarrow> ('w \<times> event list) session" where
  "recorded s = \<lparr>history = history s, world = (world s, [])\<rparr>"

subsection \<open>A reader for a fragment of JSON\<close>

text \<open>
  The examples below need a concrete \<open>JSON_parse\<close>. This reader follows the JSON
  grammar for objects, arrays, strings with the two-character escapes, the three
  literals and integers of at most 15 digits (which JavaScript prints as they are
  written; \<^verbatim>\<open>-0\<close> prints as \<^verbatim>\<open>0\<close>). Fractions, exponents and \<^verbatim>\<open>\u\<close>
  escapes are outside the fragment. \<open>None\<close> is the SyntaxError.
\<close>

definition is_ws :: "char \<Rightarrow> bool" where
  "is_ws c = (c = CHR '' '' \<or> c = CHR 0x09 \<or> c = CHR 0x0A \<or> c = CHR 0x0D)"

definition skip_ws :: "string \<Rightarrow> string" where
  "skip_ws s = dropWhile is_ws s"

definition is_digit :: "char \<Rightarrow> bool" where
  "is_digit c = (48 \<le> (of_char c :: nat) \<and> (of_char c :: nat) \<le> 57)"

definition unescape :: "char \<Rightarrow> char option" where
  \<open>unescape e =
     (if e = CHR ''"'' \<or> e = CHR 0x5C \<or> e = CHR ''/'' then Some e
      else if e = CHR ''b'' then Some (CHR 0x08)
      else if e = CHR ''f'' then Some (CHR 0x0C)
      else if e = CHR ''n'' then Some (CHR 0x0A)
      else if e = CHR ''r'' then Some (CHR 0x0D)
      else if e = CHR ''t'' then Some (CHR 0x09)
      else None)\<close>

text \<open>The text of a string after its opening quote, and what follows the closing one.\<close>

fun string_body :: "string \<Rightarrow> (string \<times> string) option" where
  "string_body [] = None"
| \<open>string_body (c # cs) =
     (if c = CHR ''"'' then Some ([], cs)
      else if c = CHR 0x5C then
        (case cs of
           [] \<Rightarrow> None
         | e # cs' \<Rightarrow>
             (case unescape e of
                None \<Rightarrow> None
              | Some d \<Rightarrow> map_option (apfst ((#) d)) (string_body cs')))
      else if (of_char c :: nat) < 32 then None
      else map_option (apfst ((#) c)) (string_body cs))\<close>

definition number :: "string \<Rightarrow> (json \<times> string) option" where
  "number s =
     (let neg = (s \<noteq> [] \<and> hd s = CHR ''-'');
          r = (if neg then tl s else s);
          ds = takeWhile is_digit r;
          rest = dropWhile is_digit r
      in if ds = [] \<or> (1 < length ds \<and> hd ds = CHR ''0'') \<or> 15 < length ds \<or>
            (rest \<noteq> [] \<and> hd rest \<in> {CHR ''.'', CHR ''e'', CHR ''E''})
         then None
         else Some (JNum (if neg \<and> ds \<noteq> ''0'' then CHR ''-'' # ds else ds), rest))"

definition literal :: "string \<Rightarrow> (json \<times> string) option" where
  "literal s =
     (if prefix ''true'' s then Some (JBool True, drop 4 s)
      else if prefix ''false'' s then Some (JBool False, drop 5 s)
      else if prefix ''null'' s then Some (JNull, drop 4 s)
      else None)"

text \<open>
  A value, the elements of an array after its bracket, the members of an object after
  its brace; each with the text that follows. The tests on the length of the rest
  are there for the termination proof; they always succeed (\<open>reader_shorter\<close> below).
\<close>

function json_value :: "string \<Rightarrow> (json \<times> string) option"
  and array_elements :: "string \<Rightarrow> (json list \<times> string) option"
  and object_members :: "string \<Rightarrow> ((string \<times> json) list \<times> string) option" where
  \<open>json_value s =
     (case skip_ws s of
        [] \<Rightarrow> None
      | c # r \<Rightarrow>
          if c = CHR ''{'' then
            (case skip_ws r of
               [] \<Rightarrow> None
             | d # r' \<Rightarrow>
                 if d = CHR ''}'' then Some (JObj [], r')
                 else map_option (apfst JObj) (object_members r))
          else if c = CHR ''['' then
            (case skip_ws r of
               [] \<Rightarrow> None
             | d # r' \<Rightarrow>
                 if d = CHR '']'' then Some (JArr [], r')
                 else map_option (apfst JArr) (array_elements r))
          else if c = CHR ''"'' then map_option (apfst JStr) (string_body r)
          else if c = CHR ''-'' \<or> is_digit c then number (c # r)
          else literal (c # r))\<close>
| \<open>array_elements s =
     (case json_value s of
        None \<Rightarrow> None
      | Some (v, r) \<Rightarrow>
          if length r < length s then
            (case skip_ws r of
               [] \<Rightarrow> None
             | d # r' \<Rightarrow>
                 if d = CHR '','' then map_option (apfst ((#) v)) (array_elements r')
                 else if d = CHR '']'' then Some ([v], r')
                 else None)
          else None)\<close>
| \<open>object_members s =
     (case skip_ws s of
        [] \<Rightarrow> None
      | q # r \<Rightarrow>
          if q = CHR ''"'' then
            (case string_body r of
               None \<Rightarrow> None
             | Some (k, r1) \<Rightarrow>
                 (case skip_ws r1 of
                    [] \<Rightarrow> None
                  | c # r2 \<Rightarrow>
                      if c = CHR '':'' then
                        (case json_value r2 of
                           None \<Rightarrow> None
                         | Some (v, r3) \<Rightarrow>
                             if length r3 < length s then
                               (case skip_ws r3 of
                                  [] \<Rightarrow> None
                                | d # r4 \<Rightarrow>
                                    if d = CHR '','' then
                                      map_option (apfst ((#) (k, v))) (object_members r4)
                                    else if d = CHR ''}'' then Some ([(k, v)], r4)
                                    else None)
                             else None)
                      else None))
          else None)\<close>
  by pat_completeness auto
termination
proof -
  have shorter: "length r < length s" if "string_body s = Some (k, r)" for s k r
    using that
  proof (induction s arbitrary: k r rule: string_body.induct)
    case 1
    then show ?case by simp
  next
    case (2 c cs)
    then show ?case
      by (auto split: if_splits list.splits option.splits) fastforce+
  qed
  have rest: "length r < length s" if "skip_ws s = c # r" for s c r
    using that length_dropWhile_le [of is_ws s] by (simp add: skip_ws_def)
  show ?thesis
  proof (relation "measure (\<lambda>x. case x of Inl s \<Rightarrow> 2 * length s
                                     | Inr (Inl s) \<Rightarrow> 2 * length s + 1
                                     | Inr (Inr s) \<Rightarrow> 2 * length s + 1)", goal_cases)
    case 1 show ?case by simp
  next
    case (2 s c r d r') then show ?case using rest [of s c r] by simp
  next
    case (3 s c r d r') then show ?case using rest [of s c r] by simp
  next
    case (4 s) show ?case by simp
  next
    case (5 s p v r d r') then show ?case using rest [of r d r'] by simp
  next
    case (6 s q r p k r1 c r2)
    then show ?case
      using rest [of s q r] shorter [of r k r1] rest [of r1 c r2] by simp
  next
    case (7 s q r p k r1 c r2 p' v r3 d r4)
    then show ?case using rest [of r3 d r4] by simp
  qed
qed

definition parse :: "string \<Rightarrow> json option" where
  "parse text =
     (case json_value text of
        None \<Rightarrow> None
      | Some (v, rest) \<Rightarrow> if skip_ws rest = [] then Some v else None)"

subsection \<open>Collaborators for the examples\<close>

text \<open>
  A gateway that answers from a script, one entry for each query (the world is what is
  left of the script), and a catalog that returns the same tools for every query. The
  executor knows four kinds of tool: \<^verbatim>\<open>svc.echo\<close> returns a result,
  \<^verbatim>\<open>svc.fail\<close> returns a failure as a value, \<^verbatim>\<open>svc.broken\<close> throws a value
  of which no message can be built, and every other name throws an \<^verbatim>\<open>Error\<close>
  with the message \<^verbatim>\<open>timeout\<close>. A tool result is given as its JSON text.
\<close>

type_synonym script = "(thrown + completion) list"

definition scripted :: "message list \<Rightarrow> script \<Rightarrow> (thrown + completion) \<times> script" where
  "scripted request w =
     (case w of
        [] \<Rightarrow> (Inl (ErrorObject ''Connection error.''), [])
      | r # rs \<Rightarrow> (r, rs))"

definition echo_tool :: tool where
  "echo_tool = \<lparr>name = ''svc.echo'', description = ''Echoes a value.'', tags = []\<rparr>"

text \<open>
  \<^verbatim>\<open>JSON.stringify\<close> on a text: quotes around it, and escapes for the quote, the
  backslash and the control characters.
\<close>

definition hex_digit :: "nat \<Rightarrow> char" where
  "hex_digit n = (if n < 10 then char_of (48 + n) else char_of (87 + n))"

definition quote_char :: "char \<Rightarrow> string" where
  "quote_char c =
     (let n = (of_char c :: nat)
      in if c = CHR 0x22 then [CHR 0x5C, CHR 0x22]
         else if c = CHR 0x5C then [CHR 0x5C, CHR 0x5C]
         else if c = CHR 0x08 then [CHR 0x5C, CHR ''b'']
         else if c = CHR 0x0C then [CHR 0x5C, CHR ''f'']
         else if c = CHR 0x0A then [CHR 0x5C, CHR ''n'']
         else if c = CHR 0x0D then [CHR 0x5C, CHR ''r'']
         else if c = CHR 0x09 then [CHR 0x5C, CHR ''t'']
         else if n < 32 then [CHR 0x5C, CHR ''u'', CHR ''0'', CHR ''0'',
                              hex_digit (n div 16), hex_digit (n mod 16)]
         else [c])"

definition quote :: "string \<Rightarrow> string" where
  "quote s = [CHR 0x22] @ concat (map quote_char s) @ [CHR 0x22]"

fun join_tags :: "string list \<Rightarrow> string" where
  "join_tags [] = []"
| "join_tags [x] = x"
| "join_tags (x # y # ys) = x @ '',\<newline>      '' @ join_tags (y # ys)"

text \<open>
  What \<^verbatim>\<open>JSON.stringify(tools, null, 2)\<close> prints for an element with the three
  fields of \<open>tool\<close>, in this order: the element starts at two spaces, its members at
  four, the tags at six.
\<close>

definition stringify_tool :: "tool \<Rightarrow> string" where
  \<open>stringify_tool t =
     ''{\<newline>    "name": '' @ quote (name t) @
     '',\<newline>    "description": '' @ quote (description t) @
     '',\<newline>    "tags": '' @
     (if tags t = [] then ''[]''
      else ''[\<newline>      '' @ join_tags (map quote (tags t)) @ ''\<newline>    ]'') @
     ''\<newline>  }''\<close>

definition stub :: "tool list \<Rightarrow> (script, string) env" where
  \<open>stub tools =
     \<lparr>search_tools = (\<lambda>query limit w. (Inr (take limit tools), w)),
      chat_completions_create = scripted,
      call_tool = (\<lambda>toolName arguments' w.
         (if toolName = JStr ''svc.echo'' then Inr ''{"received":"hi"}''
          else if toolName = JStr ''svc.fail'' then Inr ''{"ok":false,"error":"timeout"}''
          else if toolName = JStr ''svc.broken'' then Inl Unprintable
          else Inl (ErrorObject ''timeout''), w)),
      JSON_parse = parse,
      JSON_stringify_result = Inr,
      JSON_stringify_tool = stringify_tool\<rparr>\<close>

definition echo_call :: string where
  \<open>echo_call = ''{"tool_name":"svc.echo","arguments":{"value":"hi"}}''\<close>

definition other_call :: string where
  \<open>other_call = ''{"tool_name":"svc.other","arguments":{}}''\<close>

definition fenced_call :: string where
  \<open>fenced_call = ''Sure:\<newline>```json\<newline>'' @ echo_call @ ''\<newline>``` Done.''\<close>



definition unprintable_call :: string where
  \<open>unprintable_call = ''{"tool_name":{"toString":1},"arguments":{}}''\<close>

definition half_call :: string where
  \<open>half_call = ''{"tool_name":"t"}''\<close>

definition gateway_down :: thrown where
  "gateway_down = ErrorObject ''gateway down''"

text \<open>Sessions on these collaborators, named after what their gateway does.\<close>

definition down :: "script session" where
  "down = start [Inl gateway_down]"

definition echo_session :: "script session" where
  "echo_session =
     start [Inr [Some echo_call], Inr [Some ''It said hi.''], Inr [Some ''Bye!'']]"

definition timeout_session :: "script session" where
  "timeout_session = start [Inr [Some other_call], Inr [Some ''The tool timed out.'']]"

definition broken_follow_up :: "script session" where
  "broken_follow_up = start [Inr [Some other_call], Inl gateway_down]"

definition empty_answer :: "script session" where
  "empty_answer = start [Inr [Some []]]"



definition unprintable_session :: "script session" where
  "unprintable_session = start [Inr [Some unprintable_call], Inr [Some ''Not asked.'']]"

text \<open>The system prompt when the catalog holds the echo tool.\<close>

definition echo_prompt :: string where
  \<open>echo_prompt =
     instructions @
     ''Here are the available tools:\<newline>'' @
     ''[\<newline>'' @
     ''  {\<newline>'' @
     ''    "name": "svc.echo",\<newline>'' @
     ''    "description": "Echoes a value.",\<newline>'' @
     ''    "tags": []\<newline>'' @
     ''  }\<newline>'' @
     '']''\<close>

subsection \<open>Counting turns and calls\<close>

text \<open>
  The number of messages a turn pushes; the turns that ended with the model's reading of
  a tool output, those that ended with a plain reply, and those that ended in the
  \<^verbatim>\<open>catch\<close> after a failed follow-up query.
\<close>

fun appended :: "turn_result \<Rightarrow> nat" where
  "appended (Reply t) = 2"
| "appended (Interpreted t) = 3"
| "appended (Recovered t) = 4"
| "appended (Threw e) = 0"

fun tool_turn :: "turn_result \<Rightarrow> bool" where
  "tool_turn (Interpreted t) = True"
| "tool_turn r = False"

fun plain_turn :: "turn_result \<Rightarrow> bool" where
  "plain_turn (Reply t) = True"
| "plain_turn r = False"

fun recovered_turn :: "turn_result \<Rightarrow> bool" where
  "recovered_turn (Recovered t) = True"
| "recovered_turn r = False"

text \<open>The calls of a list that went to the executor, and those that went to the model.\<close>

fun is_tool_call :: "event \<Rightarrow> bool" where
  "is_tool_call (CallTool toolName arguments') = True"
| "is_tool_call c = False"



section \<open>Properties of the JSON reader\<close>

text \<open>
  Whatever the reader reads has at least one character, so the tests on the length of
  the rest in \<open>array_elements\<close> and \<open>object_members\<close> never fail.
\<close>

lemma string_body_shorter: "string_body s = Some (k, r) \<Longrightarrow> length r < length s"
proof (induction s arbitrary: k r rule: string_body.induct)
  case 1
  then show ?case by simp
next
  case (2 c cs)
  then show ?case
    by (auto split: if_splits list.splits option.splits) fastforce+
qed

lemma skip_ws_le: "length (skip_ws s) \<le> length s"
  using length_dropWhile_le [of is_ws s] by (simp add: skip_ws_def)

lemma number_shorter: "number s = Some (v, r) \<Longrightarrow> length r < length s"
proof -
  assume a: "number s = Some (v, r)"
  let ?t = "if s \<noteq> [] \<and> hd s = CHR ''-'' then tl s else s"
  from a have ne: "takeWhile is_digit ?t \<noteq> []" and r: "r = dropWhile is_digit ?t"
    by (auto simp add: number_def Let_def split: if_splits)
  have "length (takeWhile is_digit ?t) + length (dropWhile is_digit ?t) = length ?t"
    by (metis length_append takeWhile_dropWhile_id)
  with ne r have "length r < length ?t" by (cases "takeWhile is_digit ?t") auto
  moreover have "length ?t \<le> length s" by simp
  ultimately show ?thesis by simp
qed

lemma literal_shorter: "literal s = Some (v, r) \<Longrightarrow> length r < length s"
  by (auto simp add: literal_def prefix_def split: if_splits)

lemma skip_ws_Cons_lt: "skip_ws s = c # t \<Longrightarrow> length t < length s"
  using skip_ws_le [of s] by simp

lemma reader_shorter:
  "(\<forall>v r. json_value s = Some (v, r) \<longrightarrow> length r < length s)"
  "(\<forall>vs r. array_elements s1 = Some (vs, r) \<longrightarrow> length r < length s1)"
  "(\<forall>ms r. object_members s2 = Some (ms, r) \<longrightarrow> length r < length s2)"
proof (induction s and s1 and s2 rule: json_value_array_elements_object_members.induct)
  case (1 s)
  show ?case
  proof (intro allI impI)
    fix v r
    assume a: "json_value s = Some (v, r)"
    then obtain c t where sk: "skip_ws s = c # t"
      by (cases "skip_ws s") (simp_all add: json_value.simps [of s])
    have lt: "length t < length s" using sk by (rule skip_ws_Cons_lt)
    consider (obj) "c = CHR ''{''" | (arr) "c \<noteq> CHR ''{''" "c = CHR ''[''"
      | (str) "c \<noteq> CHR ''{''" "c \<noteq> CHR ''[''" "c = CHR 0x22"
      | (num) "c \<noteq> CHR ''{''" "c \<noteq> CHR ''[''" "c \<noteq> CHR 0x22" "c = CHR ''-'' \<or> is_digit c"
      | (lit) "c \<noteq> CHR ''{''" "c \<noteq> CHR ''[''" "c \<noteq> CHR 0x22" "\<not> (c = CHR ''-'' \<or> is_digit c)"
      by blast
    then show "length r < length s"
    proof cases
      case obj
      with a sk obtain d t' where sk2: "skip_ws t = d # t'"
        by (cases "skip_ws t") (simp_all add: json_value.simps [of s])
      show ?thesis
      proof (cases "d = CHR ''}''")
        case True
        with a sk obj sk2 have "r = t'" by (simp add: json_value.simps [of s])
        with skip_ws_Cons_lt [OF sk2] lt show ?thesis by simp
      next
        case False
        with a sk obj sk2 obtain ms where "object_members t = Some (ms, r)"
          by (auto simp add: json_value.simps [of s])
        with "1.IH"(1) [OF sk obj sk2 False] have "length r < length t" by blast
        with lt show ?thesis by simp
      qed
    next
      case arr
      with a sk obtain d t' where sk2: "skip_ws t = d # t'"
        by (cases "skip_ws t") (simp_all add: json_value.simps [of s])
      show ?thesis
      proof (cases "d = CHR '']''")
        case True
        with a sk arr sk2 have "r = t'" by (simp add: json_value.simps [of s])
        with skip_ws_Cons_lt [OF sk2] lt show ?thesis by simp
      next
        case False
        with a sk arr sk2 obtain vs where "array_elements t = Some (vs, r)"
          by (auto simp add: json_value.simps [of s])
        with "1.IH"(2) [OF sk arr sk2 False] have "length r < length t" by blast
        with lt show ?thesis by simp
      qed
    next
      case str
      with a sk obtain k where "string_body t = Some (k, r)"
        by (auto simp add: json_value.simps [of s])
      with string_body_shorter lt show ?thesis by fastforce
    next
      case num
      with a sk have "number (c # t) = Some (v, r)"
        by (simp add: json_value.simps [of s])
      then have "length r < length (c # t)" by (rule number_shorter)
      with sk skip_ws_le [of s] show ?thesis by simp
    next
      case lit
      with a sk have "literal (c # t) = Some (v, r)"
        by (simp add: json_value.simps [of s])
      then have "length r < length (c # t)" by (rule literal_shorter)
      with sk skip_ws_le [of s] show ?thesis by simp
    qed
  qed
next
  case (2 s)
  show ?case
  proof (intro allI impI)
    fix vs r
    assume a: "array_elements s = Some (vs, r)"
    then obtain v t where jv: "json_value s = Some (v, t)"
      by (cases "json_value s") (auto simp add: array_elements.simps [of s])
    with a have lt: "length t < length s"
      by (simp add: array_elements.simps [of s] split: if_splits)
    from a jv lt obtain d t' where sk: "skip_ws t = d # t'"
      by (cases "skip_ws t") (simp_all add: array_elements.simps [of s])
    have le: "length t' < length s" using skip_ws_Cons_lt [OF sk] lt by simp
    show "length r < length s"
    proof (cases "d = CHR '',''")
      case True
      with a jv lt sk obtain ws where "array_elements t' = Some (ws, r)"
        by (auto simp add: array_elements.simps [of s])
      with "2.IH"(2) [OF jv refl lt sk True] have "length r < length t'" by blast
      with le show ?thesis by simp
    next
      case False
      with a jv lt sk have "r = t'"
        by (simp add: array_elements.simps [of s] split: if_splits)
      with le show ?thesis by simp
    qed
  qed
next
  case (3 s)
  show ?case
  proof (intro allI impI)
    fix ms r
    assume a: "object_members s = Some (ms, r)"
    then obtain q t where sk: "skip_ws s = q # t"
      by (cases "skip_ws s") (simp_all add: object_members.simps [of s])
    with a have q: "q = CHR 0x22"
      by (simp add: object_members.simps [of s] split: if_splits)
    from a sk q obtain k t1 where sb: "string_body t = Some (k, t1)"
      by (cases "string_body t") (auto simp add: object_members.simps [of s])
    from a sk q sb obtain c t2 where sk1: "skip_ws t1 = c # t2"
      by (cases "skip_ws t1") (simp_all add: object_members.simps [of s])
    with a sk q sb have c: "c = CHR '':''"
      by (simp add: object_members.simps [of s] split: if_splits)
    from a sk q sb sk1 c obtain v t3 where jv: "json_value t2 = Some (v, t3)"
      by (cases "json_value t2") (auto simp add: object_members.simps [of s])
    with a sk q sb sk1 c have lt: "length t3 < length s"
      by (simp add: object_members.simps [of s] split: if_splits)
    from a sk q sb sk1 c jv lt obtain d t4 where sk3: "skip_ws t3 = d # t4"
      by (cases "skip_ws t3") (simp_all add: object_members.simps [of s])
    have le: "length t4 < length s" using skip_ws_Cons_lt [OF sk3] lt by simp
    show "length r < length s"
    proof (cases "d = CHR '',''")
      case True
      with a sk q sb sk1 c jv lt sk3 obtain ns where "object_members t4 = Some (ns, r)"
        by (auto simp add: object_members.simps [of s])
      with "3.IH"(2) [OF sk q sb refl sk1 c jv refl lt sk3 True] have "length r < length t4"
        by blast
      with le show ?thesis by simp
    next
      case False
      with a sk q sb sk1 c jv lt sk3 have "r = t4"
        by (simp add: object_members.simps [of s] split: if_splits)
      with le show ?thesis by simp
    qed
  qed
qed

section \<open>Properties of the regular expressions\<close>

lemma greedy_close_None: "CHR ''}'' \<notin> set s \<Longrightarrow> greedy_close s = None"
  by (induction s) auto

lemma greedy_close_last:
  "CHR ''}'' \<notin> set post \<Longrightarrow> greedy_close (body @ ''}'' @ post) = Some body"
  by (induction body) (auto simp add: greedy_close_None)

text \<open>The second expression captures from the first opening brace to the last closing one.\<close>

lemma match_braces_first_last:
  "CHR ''{'' \<notin> set pre \<Longrightarrow> CHR ''}'' \<notin> set post \<Longrightarrow>
     match_braces (pre @ ''{'' @ body @ ''}'' @ post) = Some (''{'' @ body @ ''}'')"
proof (induction pre)
  case Nil
  then show ?case using greedy_close_last [of post body] by simp
next
  case (Cons c pre)
  then show ?case by auto
qed

lemma lazy_until_prefix: "prefix p s \<Longrightarrow> lazy_until p s = Some []"
  by (cases s) auto

lemma not_prefix_before:
  assumes "\<not> sublist p ((c # x) @ butlast p)"
  shows "\<not> prefix p ((c # x) @ p @ y)"
proof
  assume a: "prefix p ((c # x) @ p @ y)"
  have b: "prefix ((c # x) @ butlast p) ((c # x) @ p @ y)"
    by (metis append.assoc append_butlast_last_id append_Nil prefixI butlast.simps(1))
  have "length p \<le> length ((c # x) @ butlast p)" by simp
  with a b have "prefix p ((c # x) @ butlast p)"
    using prefix_length_prefix by blast
  with assms show False by auto
qed

lemma lazy_until_shortest:
  "\<not> sublist p (x @ butlast p) \<Longrightarrow> lazy_until p (x @ p @ y) = Some x"
proof (induction x)
  case Nil
  then show ?case by (simp add: lazy_until_prefix)
next
  case (Cons c x)
  have "\<not> prefix p ((c # x) @ p @ y)"
    using Cons.prems by (rule not_prefix_before)
  moreover have "\<not> sublist p (x @ butlast p)"
    using Cons.prems by (auto simp add: sublist_Cons_right)
  ultimately show ?case using Cons.IH by simp
qed

lemma lazy_until_SomeD: "lazy_until p s = Some x \<Longrightarrow> \<exists>y. s = x @ p @ y"
proof (induction s arbitrary: x)
  case Nil
  then show ?case by (auto split: if_splits)
next
  case (Cons c s)
  then show ?case by (auto split: if_splits elim!: prefixE)
qed

lemma match_fenced_here:
  "prefix fence_open s \<Longrightarrow> lazy_until fence_close (drop (length fence_open) s) = Some b \<Longrightarrow>
     match_fenced s = Some (''{'' @ b @ ''}'')"
  by (cases s) (auto simp add: fence_open_def)

text \<open>
  The first expression captures the block that opens at the leftmost opening fence and
  closes at the first closing fence after it.
\<close>

lemma match_fenced_leftmost:
  assumes "\<not> sublist fence_open (pre @ butlast fence_open)"
    and "\<not> sublist fence_close (body @ butlast fence_close)"
  shows "match_fenced (pre @ fence_open @ body @ fence_close @ post) = Some (''{'' @ body @ ''}'')"
  using assms(1)
proof (induction pre)
  case Nil
  show ?case
    using match_fenced_here [of "fence_open @ body @ fence_close @ post" body]
      lazy_until_shortest [OF assms(2), of post]
    by simp
next
  case (Cons c pre)
  have "\<not> prefix fence_open ((c # pre) @ fence_open @ body @ fence_close @ post)"
    using Cons.prems by (rule not_prefix_before)
  moreover have "\<not> sublist fence_open (pre @ butlast fence_open)"
    using Cons.prems by (auto simp add: sublist_Cons_right)
  ultimately show ?case using Cons.IH by simp
qed

text \<open>Without an opening fence that is followed by a closing fence, it does not match.\<close>

lemma match_fenced_None:
  "(\<forall>mid. \<not> sublist (fence_open @ mid @ fence_close) r) \<Longrightarrow> match_fenced r = None"
proof (induction r)
  case Nil
  then show ?case by simp
next
  case (Cons c r)
  have "match_fenced r = None"
    using Cons by (auto simp add: sublist_Cons_right)
  moreover have "\<not> (prefix fence_open (c # r) \<and>
        lazy_until fence_close (drop (length fence_open) (c # r)) \<noteq> None)"
  proof
    assume a: "prefix fence_open (c # r) \<and>
        lazy_until fence_close (drop (length fence_open) (c # r)) \<noteq> None"
    then obtain x where "lazy_until fence_close (drop (length fence_open) (c # r)) = Some x"
      by auto
    then obtain y where "drop (length fence_open) (c # r) = x @ fence_close @ y"
      using lazy_until_SomeD by blast
    moreover from a have "c # r = fence_open @ drop (length fence_open) (c # r)"
      by (metis append_eq_conv_conj prefixE)
    ultimately have "c # r = [] @ (fence_open @ x @ fence_close) @ y" by simp
    then have "sublist (fence_open @ x @ fence_close) (c # r)"
      unfolding sublist_def by blast
    with Cons.prems show False by blast
  qed
  ultimately show ?case by (auto split: option.splits)
qed

lemma sublist_longer: "sublist (a @ b) r \<Longrightarrow> sublist a r"
  unfolding sublist_def by (metis append.assoc)

section \<open>Properties of the key test\<close>

lemma map_of_rev_None: "(map_of (rev kvs) k = None) = (k \<notin> fst ` set kvs)"
  by (simp add: map_of_eq_None_iff)

lemma directive_object:
  "directive (JObj members) =
     (case (map_of (rev members) ''tool_name'', map_of (rev members) ''arguments'') of
        (Some toolName, Some arguments') \<Rightarrow> Some (toolName, arguments')
      | _ \<Rightarrow> None)"
proof (cases "map_of (rev members) ''tool_name''")
  case None
  then show ?thesis
    using map_of_rev_None [of members "''tool_name''"] by (simp add: directive_def)
next
  case n: (Some toolName)
  show ?thesis
  proof (cases "map_of (rev members) ''arguments''")
    case None
    then show ?thesis
      using map_of_rev_None [of members "''arguments''"] by (simp add: directive_def n)
  next
    case (Some arguments')
    then show ?thesis
      using n map_of_rev_None [of members "''arguments''"]
        map_of_rev_None [of members "''tool_name''"]
      by (simp add: directive_def)
  qed
qed

lemma directive_not_object: "(\<forall>members. v \<noteq> JObj members) \<Longrightarrow> directive v = None"
  by (cases v) (auto simp add: directive_def)

lemma directive_None_iff:
  "directive v = None \<longleftrightarrow>
     (\<forall>members. v = JObj members \<longrightarrow>
        ''tool_name'' \<notin> fst ` set members \<or> ''arguments'' \<notin> fst ` set members)"
proof (cases "\<exists>members. v = JObj members")
  case True
  then obtain members where v: "v = JObj members" by blast
  show ?thesis
    using map_of_rev_None [of members "''arguments''"]
      map_of_rev_None [of members "''tool_name''"]
    by (auto simp add: v directive_object split: option.splits)
next
  case False
  then show ?thesis by (simp add: directive_not_object)
qed

section \<open>Properties of the recording collaborators\<close>

text \<open>
  A recording collaborator answers as the collaborator it stands for, and adds the call
  with its arguments to the list.
\<close>

lemma recording_search:
  "search_tools env query limit w = (answer, w') \<Longrightarrow>
     search_tools (recording env) query limit (w, calls) =
       (answer, (w', calls @ [SearchTools query limit]))"
  by (simp add: recording_def)

lemma recording_query:
  "getOpenAIResponse env request w = (answer, w') \<Longrightarrow>
     getOpenAIResponse (recording env) request (w, calls) =
       (answer, (w', calls @ [ChatCompletion request]))"
  by (auto simp add: getOpenAIResponse_def recording_def split: prod.splits sum.splits list.splits)

lemma recording_tool:
  "toolOutput env toolName arguments' nameText w = (output, w') \<Longrightarrow>
     toolOutput (recording env) toolName arguments' nameText (w, calls) =
       (output, (w', calls @ [CallTool toolName arguments']))"
  by (auto simp add: toolOutput_def recording_def split: prod.splits sum.splits)

lemma recording_pure:
  "JSON_parse (recording env) = JSON_parse env"
  "JSON_stringify_result (recording env) = JSON_stringify_result env"
  "JSON_stringify_tool (recording env) = JSON_stringify_tool env"
  by (simp_all add: recording_def)

lemma recording_systemMessage: "systemMessage (recording env) tools = systemMessage env tools"
  by (simp add: systemMessage_def formatToolsForPrompt_def recording_pure)

lemma recording_toolCall: "toolCall (recording env) response = toolCall env response"
  by (simp add: toolCall_def recording_pure split: option.splits)

section \<open>Properties of a turn\<close>

text \<open>The tool output, from what the executor and the serialisation do.\<close>

lemma toolOutput_returned:
  "call_tool env toolName arguments' w = (Inr result, w') \<Longrightarrow>
   JSON_stringify_result env result = Inr output \<Longrightarrow>
     toolOutput env toolName arguments' nameText w = (Some output, w')"
  by (simp add: toolOutput_def)

lemma toolOutput_thrown:
  "call_tool env toolName arguments' w = (Inl e, w') \<or>
   call_tool env toolName arguments' w = (Inr result, w') \<and>
     JSON_stringify_result env result = Inl e \<Longrightarrow>
   e = ErrorObject reason \<or> e = OtherValue reason \<Longrightarrow>
     toolOutput env toolName arguments' nameText w =
       (Some (''Error calling '' @ nameText @ '': '' @ reason), w')"
  by (auto simp add: toolOutput_def errorMessage_def error_text_def)

lemma toolOutput_unprintable:
  "call_tool env toolName arguments' w = (Inl Unprintable, w') \<Longrightarrow>
     toolOutput env toolName arguments' nameText w = (None, w')"
  by (simp add: toolOutput_def errorMessage_def error_text_def)

text \<open>A turn in which the model asks for a tool and answers the follow-up query.\<close>

lemma turn_tool_call:
  assumes search: "search_tools env userPrompt 10 (world s) = (Inr relevantTools, w1)"
    and query: "getOpenAIResponse env
                  (messages (systemMessage env relevantTools) (history s) userPrompt) w1 =
                (Inr assistantResponse, w2)"
    and call: "toolCall env assistantResponse = Some (toolName, arguments')"
    and named: "js_String toolName = Some nameText"
    and out: "toolOutput env toolName arguments' nameText w2 = (Some output, w3)"
    and final: "getOpenAIResponse env
                  (followUpMessages (systemMessage env relevantTools)
                     (history s @ [\<lparr>role = user, content = userPrompt\<rparr>,
                                   \<lparr>role = assistant, content = assistantResponse\<rparr>]) output) w3 =
                (Inr finalResponse, w4)"
  shows "turn env userPrompt s =
     (Interpreted finalResponse,
      s\<lparr>world := w4,
        history := history s @
           [\<lparr>role = user, content = userPrompt\<rparr>,
            \<lparr>role = assistant, content = assistantResponse\<rparr>,
            \<lparr>role = assistant, content = finalResponse\<rparr>]\<rparr>)"
  using assms by (simp add: turn_def toolBranch_def push_exchange_def Let_def)

text \<open>A turn in which the model asks for no tool.\<close>

lemma turn_reply:
  assumes search: "search_tools env userPrompt 10 (world s) = (Inr relevantTools, w1)"
    and query: "getOpenAIResponse env
                  (messages (systemMessage env relevantTools) (history s) userPrompt) w1 =
                (Inr assistantResponse, w2)"
    and none: "toolCall env assistantResponse = None"
  shows "turn env userPrompt s =
     (Reply assistantResponse,
      s\<lparr>world := w2,
        history := history s @
           [\<lparr>role = user, content = userPrompt\<rparr>,
            \<lparr>role = assistant, content = assistantResponse\<rparr>]\<rparr>)"
  using assms by (simp add: turn_def push_exchange_def Let_def)



text \<open>The number of messages that a turn, and then a session, pushes.\<close>

lemma toolBranch_length:
  "toolBranch env m p a n args s = (r, s') \<Longrightarrow>
     length (history s') = length (history s) + appended r"
  by (auto simp add: toolBranch_def push_exchange_def Let_def
           split: option.splits prod.splits sum.splits)

lemma turn_length:
  "turn env p s = (r, s') \<Longrightarrow> length (history s') = length (history s) + appended r"
  by (auto simp add: turn_def push_exchange_def Let_def dest!: toolBranch_length
           split: option.splits prod.splits sum.splits)

text \<open>The lines of the tools' JSON text hold the text of each tool.\<close>

lemma sublist_join_lines: "x \<in> set xs \<Longrightarrow> sublist x (join_lines xs)"
proof (induction xs rule: join_lines.induct)
  case 1
  then show ?case by simp
next
  case (2 y)
  then show ?case by simp
next
  case (3 y z zs)
  show ?case
  proof (cases "x = y")
    case True
    then show ?thesis by simp
  next
    case False
    with 3 have "sublist x (join_lines (z # zs))" by simp
    then obtain p q where "join_lines (z # zs) = p @ x @ q"
      unfolding sublist_def by blast
    then have "join_lines (y # z # zs) = (y @ '',\<newline>  '' @ p) @ x @ q" by simp
    then show ?thesis unfolding sublist_def by blast
  qed
qed

text \<open>Recording does not change what a turn does.\<close>

lemma recording_transparent:
  assumes t: "turn (recording env) userPrompt \<lparr>history = h, world = (w, calls)\<rparr> = (r, s')"
  shows "turn env userPrompt \<lparr>history = h, world = w\<rparr> =
           (r, \<lparr>history = history s', world = fst (world s')\<rparr>)"
proof -
  obtain found w1 where s: "search_tools env userPrompt 10 w = (found, w1)"
    by (cases "search_tools env userPrompt 10 w")
  note rs = recording_search [OF s, of calls]
  show ?thesis
  proof (cases found)
    case (Inl e)
    with t s rs show ?thesis by (auto simp add: turn_def)
  next
    case (Inr relevantTools)
    let ?m = "systemMessage env relevantTools"
    let ?q = "messages ?m h userPrompt"
    obtain answer w2 where q: "getOpenAIResponse env ?q w1 = (answer, w2)"
      by (cases "getOpenAIResponse env ?q w1")
    note rq = recording_query [OF q, of "calls @ [SearchTools userPrompt 10]"]
    show ?thesis
    proof (cases answer)
      case (Inl e)
      with t s rs Inr q rq show ?thesis
        by (auto simp add: turn_def Let_def recording_systemMessage)
    next
      case answered: (Inr assistantResponse)
      show ?thesis
      proof (cases "toolCall env assistantResponse")
        case None
        with t s rs Inr q rq answered show ?thesis
          by (auto simp add: turn_def Let_def recording_systemMessage recording_toolCall
                push_exchange_def)
      next
        case (Some call)
        obtain toolName arguments' where c: "call = (toolName, arguments')" by (cases call)
        show ?thesis
        proof (cases "js_String toolName")
          case None
          with t s rs Inr q rq answered Some c show ?thesis
            by (auto simp add: turn_def toolBranch_def Let_def recording_systemMessage
                  recording_toolCall push_exchange_def)
        next
          case named: (Some nameText)
          obtain out w3 where o: "toolOutput env toolName arguments' nameText w2 = (out, w3)"
            by (cases "toolOutput env toolName arguments' nameText w2")
          note ro = recording_tool [OF o,
              of "calls @ [SearchTools userPrompt 10] @ [ChatCompletion ?q]"]
          show ?thesis
          proof (cases out)
            case None
            with t s rs Inr q rq answered Some c named o ro show ?thesis
              by (auto simp add: turn_def toolBranch_def Let_def recording_systemMessage
                    recording_toolCall push_exchange_def)
          next
            case made: (Some shown)
            let ?f = "followUpMessages ?m
                        (h @ [\<lparr>role = user, content = userPrompt\<rparr>,
                              \<lparr>role = assistant, content = assistantResponse\<rparr>]) shown"
            obtain final w4 where f: "getOpenAIResponse env ?f w3 = (final, w4)"
              by (cases "getOpenAIResponse env ?f w3")
            note rf = recording_query [OF f,
                of "(calls @ [SearchTools userPrompt 10] @ [ChatCompletion ?q]) @
                    [CallTool toolName arguments']"]
            from t s rs Inr q rq answered Some c named o ro made f rf show ?thesis
              by (cases final)
                 (auto simp add: turn_def toolBranch_def Let_def recording_systemMessage
                    recording_toolCall push_exchange_def)
          qed
        qed
      qed
    qed
  qed
qed

lemma run_length:
  "run env ps s = (rs, fin, s') \<Longrightarrow>
     length (history s') = length (history s) + sum_list (map appended rs)"
proof (induction ps arbitrary: s rs fin s')
  case Nil
  then show ?case by simp
next
  case (Cons p ps)
  show ?case
  proof (cases "toLowerCase p = ''exit'' \<or> toLowerCase p = ''quit''")
    case True
    with Cons.prems show ?thesis by auto
  next
    case False
    obtain r s1 where t: "turn env p s = (r, s1)" by (cases "turn env p s")
    note len1 = turn_length [OF t]
    show ?thesis
    proof (cases "\<exists>e. r = Threw e")
      case True
      then obtain e where "r = Threw e" by blast
      with Cons.prems False t len1 show ?thesis by auto
    next
      case nothrow: False
      obtain rs1 fin1 s2 where r1: "run env ps s1 = (rs1, fin1, s2)"
        by (cases "run env ps s1") auto
      from Cons.prems False t nothrow r1
      have "rs = r # rs1" "s' = s2"
        by (cases r; auto)+
      with Cons.IH [OF r1] len1 show ?thesis by simp
    qed
  qed
qed

lemma appended_sum:
  "\<forall>r \<in> set rs. \<not> recovered_turn r \<Longrightarrow>
     sum_list (map appended rs) =
       3 * length (filter tool_turn rs) + 2 * length (filter plain_turn rs)"
proof (induction rs)
  case Nil
  then show ?case by simp
next
  case (Cons r rs)
  then show ?case by (cases r) auto
qed

section \<open>Two example turns, by evaluation\<close>

text \<open>
  The turn in which the model asks for a tool that times out, and the turn that calls
  the echo tool: the result, the history and the calls that the collaborators received.
\<close>

lemma timeout_turn_evaluated:
  "turn (recording (stub [echo_tool])) ''hello'' (recorded timeout_session) =
     (Interpreted ''The tool timed out.'',
      \<lparr>history =
         [\<lparr>role = user, content = ''hello''\<rparr>,
          \<lparr>role = assistant, content = other_call\<rparr>,
          \<lparr>role = assistant, content = ''The tool timed out.''\<rparr>],
       world = ([],
         [SearchTools ''hello'' 10,
          ChatCompletion
            [\<lparr>role = system, content = echo_prompt\<rparr>, \<lparr>role = user, content = ''hello''\<rparr>],
          CallTool (JStr ''svc.other'') (JObj []),
          ChatCompletion
            [\<lparr>role = system, content = echo_prompt\<rparr>,
             \<lparr>role = user, content = ''hello''\<rparr>,
             \<lparr>role = assistant, content = other_call\<rparr>,
             \<lparr>role = user, content = ''Tool output: Error calling svc.other: timeout''\<rparr>]])\<rparr>)"
  by code_simp

lemma echo_turn_evaluated:
  \<open>turn (recording (stub [echo_tool])) ''say hi'' (recorded echo_session) =
     (Interpreted ''It said hi.'',
      \<lparr>history =
         [\<lparr>role = user, content = ''say hi''\<rparr>,
          \<lparr>role = assistant, content = echo_call\<rparr>,
          \<lparr>role = assistant, content = ''It said hi.''\<rparr>],
       world = ([Inr [Some ''Bye!'']],
         [SearchTools ''say hi'' 10,
          ChatCompletion
            [\<lparr>role = system, content = echo_prompt\<rparr>, \<lparr>role = user, content = ''say hi''\<rparr>],
          CallTool (JStr ''svc.echo'') (JObj [(''value'', JStr ''hi'')]),
          ChatCompletion
            [\<lparr>role = system, content = echo_prompt\<rparr>,
             \<lparr>role = user, content = ''say hi''\<rparr>,
             \<lparr>role = assistant, content = echo_call\<rparr>,
             \<lparr>role = user, content = ''Tool output: {"received":"hi"}''\<rparr>]])\<rparr>)\<close>
  by code_simp

section \<open>The claims\<close>

text \<open>
  Claim C1: a failing model query. The claim says that the turn ends with the error
  as its answer, that the history is as before the turn, and that the session goes on.
  The loop has no handler for the first query of a turn: the exception leaves
  \<^verbatim>\<open>main\<close>, whose caller ends the process. What holds for the first query: the
  turn throws, none of its messages is pushed, and the session ends there, whatever
  input follows.
\<close>

theorem initial_query_failure_ends_session:
  assumes search: "search_tools env userPrompt 10 (world s) = (Inr relevantTools, w1)"
    and query: "getOpenAIResponse env
                  (messages (systemMessage env relevantTools) (history s) userPrompt) w1 =
                (Inl e, w2)"
    and stay: "toLowerCase userPrompt \<noteq> ''exit''" "toLowerCase userPrompt \<noteq> ''quit''"
  shows "fst (turn env userPrompt s) = Threw e
       \<and> history (snd (turn env userPrompt s)) = history s
       \<and> fst (snd (run env (userPrompt # rest) s)) = Crashed e
       \<and> history (snd (snd (run env (userPrompt # rest) s))) = history s"
proof -
  have t: "turn env userPrompt s = (Threw e, s\<lparr>world := w2\<rparr>)"
    using search query by (simp add: turn_def Let_def)
  show ?thesis using stay by (simp add: t)
qed

text \<open>A session whose gateway is down at the first prompt; a second prompt is waiting.\<close>

theorem initial_query_failure_witness:
  "fst (turn (stub []) ''hello'' down) = Threw gateway_down
   \<and> history (snd (turn (stub []) ''hello'' down)) = history down
   \<and> fst (snd (run (stub []) (''hello'' # [''again'']) down)) = Crashed gateway_down
   \<and> history (snd (snd (run (stub []) (''hello'' # [''again'']) down))) = history down"
proof -
  have search: "search_tools (stub []) ''hello'' 10 (world down) = (Inr [], [Inl gateway_down])"
    by (simp add: stub_def start_def down_def)
  have query: "getOpenAIResponse (stub [])
                 (messages (systemMessage (stub []) []) (history down) ''hello'')
                 [Inl gateway_down] = (Inl gateway_down, [])"
    by (simp add: getOpenAIResponse_def stub_def scripted_def)
  have stay: "toLowerCase ''hello'' \<noteq> ''exit''" "toLowerCase ''hello'' \<noteq> ''quit''"
    by (simp_all add: toLowerCase_def)
  show ?thesis
    by (rule initial_query_failure_ends_session [OF search query stay])
qed

text \<open>
  The session does not go on after the failed query: it ends with the exception, and
  the second prompt gets no turn. And when it is the follow-up query that fails, the
  turn leaves four messages in the history.
\<close>

theorem gateway_failure_counterexample:
  "fst (snd (run (stub []) [''hello'', ''again''] down)) = Crashed gateway_down
   \<and> fst (run (stub []) [''hello'', ''again''] down) = [Threw gateway_down]
   \<and> fst (turn (stub []) ''hello'' broken_follow_up) = Recovered other_call
   \<and> history (snd (turn (stub []) ''hello'' broken_follow_up)) =
       [\<lparr>role = user, content = ''hello''\<rparr>, \<lparr>role = assistant, content = other_call\<rparr>,
        \<lparr>role = user, content = ''hello''\<rparr>, \<lparr>role = assistant, content = other_call\<rparr>]"
  by code_simp

text \<open>
  Claim C2: the length of the history. The claim says \<open>2 * (N + M)\<close> after \<open>N\<close>
  turns with a tool and \<open>M\<close> turns without. A turn with a tool pushes three
  messages: the user prompt, the response that asks for the tool, and the final
  response. What holds, for a session that starts with an empty history and whose
  follow-up queries are all answered: the length is \<open>3 * N + 2 * M\<close>, with
  \<open>N\<close> the turns that ended with the model's reading of a tool output and \<open>M\<close>
  the turns that ended with a plain reply.
\<close>

theorem history_length:
  assumes "run env prompts (start w) = (results, fin, s')"
    and "\<forall>r \<in> set results. \<not> recovered_turn r"
  shows "length (history s') =
           3 * length (filter tool_turn results) + 2 * length (filter plain_turn results)"
  using run_length [OF assms(1)] appended_sum [OF assms(2)] by (simp add: start_def)

text \<open>A session of one turn with a tool and one turn without: five messages.\<close>

theorem history_length_witness:
  "fst (run (stub [echo_tool]) [''say hi'', ''bye''] echo_session) =
     [Interpreted ''It said hi.'', Reply ''Bye!'']
   \<and> length (history (snd (snd (run (stub [echo_tool]) [''say hi'', ''bye''] echo_session)))) = 5"
proof -
  let ?run = "run (stub [echo_tool]) [''say hi'', ''bye'']
                (start [Inr [Some echo_call], Inr [Some ''It said hi.''], Inr [Some ''Bye!'']])"
  have r: "fst ?run = [Interpreted ''It said hi.'', Reply ''Bye!'']"
    by code_simp
  have c: "?run = (fst ?run, fst (snd ?run), snd (snd ?run))" by simp
  have n: "\<forall>r \<in> set (fst ?run). \<not> recovered_turn r"
    unfolding r by simp
  have h: "length (history (snd (snd ?run))) =
          3 * length (filter tool_turn (fst ?run)) + 2 * length (filter plain_turn (fst ?run))"
    by (rule history_length [OF c n])
  have k: "3 * length (filter tool_turn (fst ?run)) + 2 * length (filter plain_turn (fst ?run)) = 5"
    unfolding r by simp
  from h k have l: "length (history (snd (snd ?run))) = 5" by (rule trans)
  show ?thesis unfolding echo_session_def by (rule conjI [OF r l])
qed

text \<open>After one turn with a tool the history has three messages, not two.\<close>

theorem history_length_counterexample:
  "fst (run (stub [echo_tool]) [''say hi''] echo_session) = [Interpreted ''It said hi.'']
   \<and> length (history (snd (snd (run (stub [echo_tool]) [''say hi''] echo_session)))) = 3
   \<and> 3 \<noteq> 2 * (1 + (0::nat))"
  by code_simp

text \<open>
  Claim C3: the candidate of the interpreter. The claim says that the second attempt
  takes the first balanced \<^verbatim>\<open>{...}\<close> of the text, and that among several such
  texts the first that parses and has the two keys is returned. The loop tries one
  candidate only. With an opening fence \<^verbatim>\<open>```json\<close>, newline, brace that is
  followed by a closing brace, newline, fence, the candidate runs from the leftmost
  such opening to the first closing after it; with none, it runs from the first
  opening brace of the text to its last closing brace. The result is what
  \<^verbatim>\<open>JSON.parse\<close> and the key test make of this candidate. So a fenced block with
  a directive is returned, with any prose around it, when it is the first fenced block
  of the text.
\<close>

theorem single_candidate:
  assumes "assistantResponse = pre @ fence_open @ body @ fence_close @ post
           \<and> \<not> sublist fence_open (pre @ butlast fence_open)
           \<and> \<not> sublist fence_close (body @ butlast fence_close)
         \<or> (\<forall>mid. \<not> sublist (fence_open @ mid @ fence_close) assistantResponse)
           \<and> assistantResponse = pre @ ''{'' @ body @ ''}'' @ post
           \<and> CHR ''{'' \<notin> set pre \<and> CHR ''}'' \<notin> set post"
  shows "toolCall env assistantResponse =
           (case JSON_parse env (''{'' @ body @ ''}'') of
              None \<Rightarrow> None
            | Some toolCallData \<Rightarrow> directive toolCallData)"
proof -
  have "jsonMatch assistantResponse = Some (''{'' @ body @ ''}'')"
    using assms
  proof (elim disjE conjE)
    assume "assistantResponse = pre @ fence_open @ body @ fence_close @ post"
      "\<not> sublist fence_open (pre @ butlast fence_open)"
      "\<not> sublist fence_close (body @ butlast fence_close)"
    then show ?thesis
      using match_fenced_leftmost [of pre body post] by (simp add: jsonMatch_def)
  next
    assume "\<forall>mid. \<not> sublist (fence_open @ mid @ fence_close) assistantResponse"
      "assistantResponse = pre @ ''{'' @ body @ ''}'' @ post"
      "CHR ''{'' \<notin> set pre" "CHR ''}'' \<notin> set post"
    then show ?thesis
      using match_fenced_None [of assistantResponse] match_braces_first_last [of pre post body]
      by (simp add: jsonMatch_def)
  qed
  then show ?thesis by (simp add: toolCall_def)
qed

text \<open>A fenced directive between prose, and a bare directive between prose.\<close>

theorem single_candidate_witness:
  "toolCall (stub []) fenced_call = Some (JStr ''svc.echo'', JObj [(''value'', JStr ''hi'')])
   \<and> toolCall (stub []) (''Calling '' @ other_call @ '' now'') = Some (JStr ''svc.other'', JObj [])"
proof -
  let ?body = \<open>''"tool_name":"svc.echo","arguments":{"value":"hi"}''\<close>
  have d: "fenced_call = ''Sure:\<newline>'' @ fence_open @ ?body @ fence_close @ '' Done.''"
    by (simp add: fenced_call_def echo_call_def fence_open_def fence_close_def)
  have o: "\<not> sublist fence_open (''Sure:\<newline>'' @ butlast fence_open)"
    by code_simp
  have c: "\<not> sublist fence_close (?body @ butlast fence_close)"
    by code_simp
  have e: "(case JSON_parse (stub []) (''{'' @ ?body @ ''}'') of
              None \<Rightarrow> None | Some toolCallData \<Rightarrow> directive toolCallData) =
           Some (JStr ''svc.echo'', JObj [(''value'', JStr ''hi'')])"
    by code_simp
  have first: "toolCall (stub []) fenced_call =
      Some (JStr ''svc.echo'', JObj [(''value'', JStr ''hi'')])"
    using single_candidate [of fenced_call "''Sure:\<newline>''" ?body "'' Done.''" "stub []"] d o c e
    by simp
  let ?r = "''Calling '' @ other_call @ '' now''"
  let ?b2 = \<open>''"tool_name":"svc.other","arguments":{}''\<close>
  have n: "\<not> sublist fence_open ?r" by code_simp
  have nf: "\<forall>mid. \<not> sublist (fence_open @ mid @ fence_close) ?r"
    using n sublist_longer by blast
  have d2: "?r = ''Calling '' @ ''{'' @ ?b2 @ ''}'' @ '' now''"
    by (simp add: other_call_def)
  have pp: "CHR ''{'' \<notin> set ''Calling ''" "CHR ''}'' \<notin> set '' now''" by simp_all
  have e2: "(case JSON_parse (stub []) (''{'' @ ?b2 @ ''}'') of
              None \<Rightarrow> None | Some toolCallData \<Rightarrow> directive toolCallData) =
           Some (JStr ''svc.other'', JObj [])"
    by code_simp
  have second: "toolCall (stub []) ?r = Some (JStr ''svc.other'', JObj [])"
    using single_candidate [of ?r "''Calling ''" ?b2 "'' now''" "stub []"] nf d2 pp e2
    by simp
  show ?thesis using first second by simp
qed

text \<open>
  A directive alone is found. Followed by prose with a second pair of braces it is
  not: the candidate runs to the last closing brace and does not parse. Nor is a fenced
  directive found after a fenced block that does not parse.
\<close>

theorem first_balanced_counterexample:
  \<open>toolCall (stub []) ''{"tool_name":"t","arguments":{}}'' = Some (JStr ''t'', JObj [])
   \<and> toolCall (stub []) ''{"tool_name":"t","arguments":{}} or {"x":1}'' = None
   \<and> toolCall (stub [])
        ''```json\<newline>{oops}\<newline>```\<newline>```json\<newline>{"tool_name":"t","arguments":{}}\<newline>```'' = None\<close>
  by code_simp

text \<open>
  Claim C4: no directive. The claim says that the interpreter returns null for every
  text without a JSON object whose \<^verbatim>\<open>tool_name\<close> is a string and whose
  \<^verbatim>\<open>arguments\<close> is an object. The key test asks for the presence of the two keys
  only, not for the types of their values. What holds: the interpreter returns null
  exactly when there is no candidate, or the candidate does not parse (the exception
  is caught), or the parsed value is not an object with both keys; it never throws, and
  the turn then prints the response and pushes the prompt and the response.
\<close>

theorem no_directive_iff:
  "((toolCall env assistantResponse = None) =
      (\<forall>jsonString members.
         jsonMatch assistantResponse = Some jsonString \<and>
         JSON_parse env jsonString = Some (JObj members) \<longrightarrow>
         ''tool_name'' \<notin> fst ` set members \<or> ''arguments'' \<notin> fst ` set members))
   \<and> (search_tools env userPrompt 10 (world s) = (Inr relevantTools, w1) \<and>
      getOpenAIResponse env
        (messages (systemMessage env relevantTools) (history s) userPrompt) w1 =
      (Inr assistantResponse, w2) \<and>
      toolCall env assistantResponse = None \<longrightarrow>
      fst (turn env userPrompt s) = Reply assistantResponse \<and>
      history (snd (turn env userPrompt s)) =
        history s @ [\<lparr>role = user, content = userPrompt\<rparr>,
                     \<lparr>role = assistant, content = assistantResponse\<rparr>])"
proof (intro conjI impI)
  show "(toolCall env assistantResponse = None) =
      (\<forall>jsonString members.
         jsonMatch assistantResponse = Some jsonString \<and>
         JSON_parse env jsonString = Some (JObj members) \<longrightarrow>
         ''tool_name'' \<notin> fst ` set members \<or> ''arguments'' \<notin> fst ` set members)"
    by (auto simp add: toolCall_def directive_None_iff split: option.splits)
next
  assume a: "search_tools env userPrompt 10 (world s) = (Inr relevantTools, w1) \<and>
      getOpenAIResponse env
        (messages (systemMessage env relevantTools) (history s) userPrompt) w1 =
      (Inr assistantResponse, w2) \<and>
      toolCall env assistantResponse = None"
  then have t: "turn env userPrompt s =
     (Reply assistantResponse,
      s\<lparr>world := w2,
        history := history s @
           [\<lparr>role = user, content = userPrompt\<rparr>,
            \<lparr>role = assistant, content = assistantResponse\<rparr>]\<rparr>)"
    using turn_reply [of env userPrompt s relevantTools w1 assistantResponse w2] by simp
  show "fst (turn env userPrompt s) = Reply assistantResponse" by (simp add: t)
  show "history (snd (turn env userPrompt s)) =
        history s @ [\<lparr>role = user, content = userPrompt\<rparr>,
                     \<lparr>role = assistant, content = assistantResponse\<rparr>]"
    by (simp add: t)
qed

text \<open>A response with one of the two keys.\<close>

theorem no_directive_witness:
  "toolCall (stub []) half_call = None
   \<and> fst (turn (stub []) ''hello'' (start [Inr [Some half_call]])) = Reply half_call
   \<and> history (snd (turn (stub []) ''hello'' (start [Inr [Some half_call]]))) =
       [\<lparr>role = user, content = ''hello''\<rparr>, \<lparr>role = assistant, content = half_call\<rparr>]"
proof -
  let ?s = "start [Inr [Some half_call]] :: script session"
  have m: "jsonMatch half_call = Some half_call" by code_simp
  have p: "JSON_parse (stub []) half_call = Some (JObj [(''tool_name'', JStr ''t'')])"
    by code_simp
  note inst = no_directive_iff [of "stub []" half_call "''hello''" ?s "[]" "[Inr [Some half_call]]" "[]"]
  have none: "toolCall (stub []) half_call = None"
    using inst m p by simp
  have search: "search_tools (stub []) ''hello'' 10 (world ?s) = (Inr [], [Inr [Some half_call]])"
    by (simp add: stub_def start_def)
  have query: "getOpenAIResponse (stub [])
                 (messages (systemMessage (stub []) []) (history ?s) ''hello'')
                 [Inr [Some half_call]] = (Inr half_call, [])"
    by (simp add: getOpenAIResponse_def stub_def scripted_def)
  have "fst (turn (stub []) ''hello'' ?s) = Reply half_call \<and>
      history (snd (turn (stub []) ''hello'' ?s)) =
        history ?s @ [\<lparr>role = user, content = ''hello''\<rparr>,
                     \<lparr>role = assistant, content = half_call\<rparr>]"
    using inst search query none by blast
  then show ?thesis using none by (simp add: start_def)
qed

text \<open>A number as tool name and a number as arguments make a directive.\<close>

theorem untyped_fields_counterexample:
  \<open>toolCall (stub []) ''{"tool_name":1,"arguments":2}'' = Some (JNum ''1'', JNum ''2'')\<close>
  by code_simp








text \<open>
  Claim C7: an empty answer of the model. The claim says that a completion with empty
  or invalid content makes the turn fail and leaves the history as it was.
  \<^verbatim>\<open>getOpenAIResponse\<close> turns a \<^verbatim>\<open>null\<close> or empty content into the empty
  string. What holds: the empty string is a reply like any other text without a
  directive; the turn prints it and pushes the user prompt and the empty response.
\<close>

theorem empty_content_is_a_reply:
  assumes search: "search_tools env userPrompt 10 (world s) = (Inr relevantTools, w1)"
    and create: "chat_completions_create env
                   (messages (systemMessage env relevantTools) (history s) userPrompt) w1 =
                 (Inr (c # cs), w2)"
    and empty: "c = None \<or> c = Some []"
  shows "fst (turn env userPrompt s) = Reply []
       \<and> history (snd (turn env userPrompt s)) =
           history s @ [\<lparr>role = user, content = userPrompt\<rparr>,
                        \<lparr>role = assistant, content = []\<rparr>]"
proof -
  have q: "getOpenAIResponse env
             (messages (systemMessage env relevantTools) (history s) userPrompt) w1 =
           (Inr [], w2)"
    using create empty by (auto simp add: getOpenAIResponse_def)
  have n: "toolCall env [] = None"
    by (simp add: toolCall_def jsonMatch_def)
  show ?thesis
    by (simp add: turn_reply [OF search q n])
qed

text \<open>A completion whose content is \<^verbatim>\<open>null\<close>.\<close>

theorem empty_content_witness:
  "fst (turn (stub []) ''hello'' (start [Inr [None]])) = Reply []
   \<and> history (snd (turn (stub []) ''hello'' (start [Inr [None]]))) =
       history (start [Inr [None]] :: script session) @
         [\<lparr>role = user, content = ''hello''\<rparr>, \<lparr>role = assistant, content = []\<rparr>]"
proof -
  let ?s = "start [Inr [None]] :: script session"
  have search: "search_tools (stub []) ''hello'' 10 (world ?s) = (Inr [], [Inr [None]])"
    by (simp add: stub_def start_def)
  have create: "chat_completions_create (stub [])
                  (messages (systemMessage (stub []) []) (history ?s) ''hello'') [Inr [None]] =
                (Inr (None # []), [])"
    by (simp add: stub_def scripted_def)
  have empty: "(None :: string option) = None \<or> (None :: string option) = Some []"
    by simp
  show ?thesis
    by (rule empty_content_is_a_reply [OF search create empty])
qed

text \<open>The turn with an empty content ends with a reply, and the history has grown.\<close>

theorem empty_content_counterexample:
  "fst (turn (stub []) ''hello'' empty_answer) = Reply []
   \<and> history empty_answer = []
   \<and> history (snd (turn (stub []) ''hello'' empty_answer)) =
       [\<lparr>role = user, content = ''hello''\<rparr>, \<lparr>role = assistant, content = []\<rparr>]"
  by code_simp

text \<open>
  Claim C8: the system message. In every turn, each list of messages that the model
  receives, for the first query and for the follow-up query alike, starts with a
  system message whose content is the system prompt built from the tools that the
  search of this turn returned; it holds the text of each of these tools.
\<close>

theorem queries_start_with_system_message:
  assumes t: "turn (recording env) userPrompt s = (r, s')"
    and w: "world s = (w, calls)"
  shows "\<exists>evs. snd (world s') = calls @ evs
       \<and> (\<forall>q. ChatCompletion q \<in> set evs \<longrightarrow>
             (\<exists>relevantTools w1.
                search_tools env userPrompt 10 w = (Inr relevantTools, w1)
              \<and> q \<noteq> []
              \<and> role (hd q) = system
              \<and> content (hd q) =
                  instructions @ ''Here are the available tools:\<newline>'' @
                  formatToolsForPrompt env relevantTools
              \<and> (\<forall>t \<in> set relevantTools.
                    sublist (JSON_stringify_tool env t) (content (hd q)))))"
proof -
  obtain found w1 where s: "search_tools env userPrompt 10 w = (found, w1)"
    by (cases "search_tools env userPrompt 10 w")
  let ?c1 = "calls @ [SearchTools userPrompt 10]"
  from s have searched: "search_tools (recording env) userPrompt 10 (w, calls) = (found, (w1, ?c1))"
    by (simp add: recording_def)
  show ?thesis
  proof (cases found)
    case (Inl e)
    with t w searched have "snd (world s') = calls @ [SearchTools userPrompt 10]"
      by (auto simp add: turn_def)
    then show ?thesis by fastforce
  next
    case (Inr relevantTools)
    let ?m = "systemMessage env relevantTools"
    let ?q = "messages ?m (history s) userPrompt"
    let ?c2 = "calls @ [SearchTools userPrompt 10, ChatCompletion ?q]"
    have same: "systemMessage (recording env) relevantTools = ?m"
      "\<And>response. toolCall (recording env) response = toolCall env response"
      by (auto simp add: systemMessage_def formatToolsForPrompt_def toolCall_def recording_def
            split: option.splits)
    have held: "sublist (JSON_stringify_tool env x) (content ?m)"
      if "x \<in> set relevantTools" for x
    proof -
      from that have "sublist (JSON_stringify_tool env x)
          (join_lines (map (JSON_stringify_tool env) relevantTools))"
        by (intro sublist_join_lines) simp
      then obtain p q where
        j: "join_lines (map (JSON_stringify_tool env) relevantTools) =
              p @ JSON_stringify_tool env x @ q"
        unfolding sublist_def by blast
      from that have "relevantTools \<noteq> []" by auto
      then have "content ?m =
          (instructions @ ''Here are the available tools:\<newline>'' @ ''[\<newline>  '' @ p) @
          JSON_stringify_tool env x @ (q @ ''\<newline>]'')"
        by (simp add: systemMessage_def systemPrompt_def formatToolsForPrompt_def j)
      then show ?thesis unfolding sublist_def by blast
    qed
    have first: "role ?m = system
        \<and> content ?m =
            instructions @ ''Here are the available tools:\<newline>'' @
            formatToolsForPrompt env relevantTools
        \<and> (\<forall>t \<in> set relevantTools. sublist (JSON_stringify_tool env t) (content ?m))"
      using held by (simp add: systemMessage_def systemPrompt_def)
    have good: "\<exists>relevantTools w1.
                search_tools env userPrompt 10 w = (Inr relevantTools, w1)
              \<and> q \<noteq> []
              \<and> role (hd q) = system
              \<and> content (hd q) =
                  instructions @ ''Here are the available tools:\<newline>'' @
                  formatToolsForPrompt env relevantTools
              \<and> (\<forall>t \<in> set relevantTools.
                    sublist (JSON_stringify_tool env t) (content (hd q)))"
      if "q \<noteq> []" and "hd q = ?m" for q
      using that first s Inr by auto
    have hq: "?q \<noteq> []" "hd ?q = ?m" by (simp_all add: messages_def)
    obtain answer w2 where "getOpenAIResponse env ?q w1 = (answer, w2)"
      by (cases "getOpenAIResponse env ?q w1")
    then have asked: "getOpenAIResponse (recording env) ?q (w1, ?c1) = (answer, (w2, ?c2))"
      by (auto simp add: getOpenAIResponse_def recording_def
               split: prod.splits sum.splits list.splits)
    have one: ?thesis if "snd (world s') = ?c2 @ filter is_tool_call evs" for evs
    proof (intro exI [of _ "[SearchTools userPrompt 10, ChatCompletion ?q] @ filter is_tool_call evs"]
             conjI allI impI)
      show "snd (world s') =
              calls @ [SearchTools userPrompt 10, ChatCompletion ?q] @ filter is_tool_call evs"
        using that by simp
    next
      fix q
      assume "ChatCompletion q \<in>
                set ([SearchTools userPrompt 10, ChatCompletion ?q] @ filter is_tool_call evs)"
      then have "q = ?q" by auto
      with good [OF hq] show "\<exists>relevantTools w1.
                search_tools env userPrompt 10 w = (Inr relevantTools, w1)
              \<and> q \<noteq> []
              \<and> role (hd q) = system
              \<and> content (hd q) =
                  instructions @ ''Here are the available tools:\<newline>'' @
                  formatToolsForPrompt env relevantTools
              \<and> (\<forall>t \<in> set relevantTools.
                    sublist (JSON_stringify_tool env t) (content (hd q)))"
        by simp
    qed
    show ?thesis
    proof (cases answer)
      case (Inl e)
      with t w searched Inr asked have "snd (world s') = ?c2 @ filter is_tool_call []"
        by (auto simp add: turn_def Let_def same)
      then show ?thesis by (rule one)
    next
      case answered: (Inr assistantResponse)
      show ?thesis
      proof (cases "toolCall env assistantResponse")
        case None
        with t w searched Inr asked answered
        have "snd (world s') = ?c2 @ filter is_tool_call []"
          by (auto simp add: turn_def Let_def same push_exchange_def)
        then show ?thesis by (rule one)
      next
        case (Some call)
        obtain toolName arguments' where c: "call = (toolName, arguments')" by (cases call)
        let ?c3 = "calls @ [SearchTools userPrompt 10, ChatCompletion ?q,
                            CallTool toolName arguments']"
        show ?thesis
        proof (cases "js_String toolName")
          case None
          with t w searched Inr asked answered Some c
          have "snd (world s') = ?c2 @ filter is_tool_call []"
            by (auto simp add: turn_def toolBranch_def Let_def same push_exchange_def)
          then show ?thesis by (rule one)
        next
          case named: (Some nameText)
          obtain made w3 where "toolOutput env toolName arguments' nameText w2 = (made, w3)"
            by (cases "toolOutput env toolName arguments' nameText w2")
          then have called: "toolOutput (recording env) toolName arguments' nameText (w2, ?c2) =
                        (made, (w3, ?c3))"
            by (auto simp add: toolOutput_def recording_def split: prod.splits sum.splits)
          show ?thesis
          proof (cases made)
            case None
            with t w searched Inr asked answered Some c named called
            have "snd (world s') = ?c2 @ filter is_tool_call [CallTool toolName arguments']"
              by (auto simp add: turn_def toolBranch_def Let_def same push_exchange_def)
            then show ?thesis by (rule one)
          next
            case built: (Some shown)
            let ?f = "followUpMessages ?m
                        (history s @ [\<lparr>role = user, content = userPrompt\<rparr>,
                                      \<lparr>role = assistant, content = assistantResponse\<rparr>]) shown"
            have hf: "?f \<noteq> []" "hd ?f = ?m" by (simp_all add: followUpMessages_def)
            obtain final w4 where "getOpenAIResponse env ?f w3 = (final, w4)"
              by (cases "getOpenAIResponse env ?f w3")
            then have followed: "getOpenAIResponse (recording env) ?f (w3, ?c3) =
                            (final, (w4, ?c3 @ [ChatCompletion ?f]))"
              by (auto simp add: getOpenAIResponse_def recording_def
                       split: prod.splits sum.splits list.splits)
            from t w searched Inr asked answered Some c named called built followed
            have e: "snd (world s') = ?c3 @ [ChatCompletion ?f]"
              by (cases final)
                 (auto simp add: turn_def toolBranch_def Let_def same push_exchange_def)
            show ?thesis
            proof (intro exI [of _ "[SearchTools userPrompt 10, ChatCompletion ?q,
                                     CallTool toolName arguments', ChatCompletion ?f]"]
                     conjI allI impI)
              show "snd (world s') =
                      calls @ [SearchTools userPrompt 10, ChatCompletion ?q,
                               CallTool toolName arguments', ChatCompletion ?f]"
                using e by simp
            next
              fix q
              assume "ChatCompletion q \<in>
                        set [SearchTools userPrompt 10, ChatCompletion ?q,
                             CallTool toolName arguments', ChatCompletion ?f]"
              then have "q = ?q \<or> q = ?f" by auto
              with good [OF hq] good [OF hf] show "\<exists>relevantTools w1.
                search_tools env userPrompt 10 w = (Inr relevantTools, w1)
              \<and> q \<noteq> []
              \<and> role (hd q) = system
              \<and> content (hd q) =
                  instructions @ ''Here are the available tools:\<newline>'' @
                  formatToolsForPrompt env relevantTools
              \<and> (\<forall>t \<in> set relevantTools.
                    sublist (JSON_stringify_tool env t) (content (hd q)))"
                by auto
            qed
          qed
        qed
      qed
    qed
  qed
qed

text \<open>The two queries of the turn that calls the echo tool, and their system message.\<close>

theorem queries_start_with_system_message_witness:
  \<open>ChatCompletion
     [\<lparr>role = system, content = echo_prompt\<rparr>, \<lparr>role = user, content = ''say hi''\<rparr>]
     \<in> set (snd (world (snd (turn (recording (stub [echo_tool])) ''say hi''
                (recorded echo_session)))))
   \<and> ChatCompletion
       [\<lparr>role = system, content = echo_prompt\<rparr>,
        \<lparr>role = user, content = ''say hi''\<rparr>,
        \<lparr>role = assistant, content = echo_call\<rparr>,
        \<lparr>role = user, content = ''Tool output: {"received":"hi"}''\<rparr>]
     \<in> set (snd (world (snd (turn (recording (stub [echo_tool])) ''say hi''
                (recorded echo_session)))))
   \<and> echo_prompt =
       instructions @ ''Here are the available tools:\<newline>'' @
       formatToolsForPrompt (stub [echo_tool]) [echo_tool]
   \<and> sublist (JSON_stringify_tool (stub [echo_tool]) echo_tool) echo_prompt\<close>
proof -
  let ?env = "stub [echo_tool]"
  let ?t = "turn (recording ?env) ''say hi'' (recorded echo_session)"
  let ?w = "[Inr [Some echo_call], Inr [Some ''It said hi.''], Inr [Some ''Bye!'']] :: script"
  let ?q1 = "[\<lparr>role = system, content = echo_prompt\<rparr>, \<lparr>role = user, content = ''say hi''\<rparr>]"
  let ?q2 = \<open>[\<lparr>role = system, content = echo_prompt\<rparr>,
        \<lparr>role = user, content = ''say hi''\<rparr>,
        \<lparr>role = assistant, content = echo_call\<rparr>,
        \<lparr>role = user, content = ''Tool output: {"received":"hi"}''\<rparr>]\<close>
  have c: "?t = (fst ?t, snd ?t)" by simp
  have w: "world (recorded echo_session) = (?w, [])"
    by (simp add: recorded_def echo_session_def start_def)
  have search: "search_tools ?env ''say hi'' 10 ?w = (Inr [echo_tool], ?w)"
    by (simp add: stub_def)
  have m1: "ChatCompletion ?q1 \<in> set (snd (world (snd ?t)))" by code_simp
  have m2: "ChatCompletion ?q2 \<in> set (snd (world (snd ?t)))" by code_simp
  from queries_start_with_system_message [OF c w] obtain evs where
    e: "snd (world (snd ?t)) = [] @ evs"
    and f: "\<forall>q. ChatCompletion q \<in> set evs \<longrightarrow>
             (\<exists>relevantTools w1.
                search_tools ?env ''say hi'' 10 ?w = (Inr relevantTools, w1)
              \<and> q \<noteq> []
              \<and> role (hd q) = system
              \<and> content (hd q) =
                  instructions @ ''Here are the available tools:\<newline>'' @
                  formatToolsForPrompt ?env relevantTools
              \<and> (\<forall>t \<in> set relevantTools.
                    sublist (JSON_stringify_tool ?env t) (content (hd q))))"
    by blast
  from e have evs: "evs = snd (world (snd ?t))" by simp
  from f m1 search have
    "content (hd ?q1) =
       instructions @ ''Here are the available tools:\<newline>'' @
       formatToolsForPrompt ?env [echo_tool]
     \<and> (\<forall>t \<in> set [echo_tool]. sublist (JSON_stringify_tool ?env t) (content (hd ?q1)))"
    unfolding evs by fastforce
  then have p: "echo_prompt =
       instructions @ ''Here are the available tools:\<newline>'' @
       formatToolsForPrompt ?env [echo_tool]"
    and s: "sublist (JSON_stringify_tool ?env echo_tool) echo_prompt"
    by simp_all
  from m1 m2 p s show ?thesis by (intro conjI)
qed

text \<open>
  Claim C9: the prompt for an empty catalog. The claim says that the system message
  then tells the model to reply in natural language. The system prompt has no sentence
  of this kind, for any list of tools. What holds: for the empty list it is the fixed
  instructions, the line \<^verbatim>\<open>Here are the available tools:\<close> and \<^verbatim>\<open>[]\<close>; it
  differs from the prompt for other tools in the text of the list only.
\<close>

theorem empty_catalog_prompt:
  "systemPrompt (formatToolsForPrompt env []) =
     instructions @ ''Here are the available tools:\<newline>[]''
   \<and> systemPrompt (formatToolsForPrompt env tools) =
     instructions @ ''Here are the available tools:\<newline>'' @ formatToolsForPrompt env tools"
  by (simp add: systemPrompt_def formatToolsForPrompt_def)

text \<open>
  The whole prompt for the empty catalog; it speaks neither of natural language nor of
  what to do without a tool.
\<close>

theorem empty_catalog_counterexample:
  \<open>systemPrompt (formatToolsForPrompt (stub []) []) =
     ''You are a helpful assistant. When you need to use a tool, you MUST respond with a JSON object '' @
     ''with 'tool_name' and 'arguments' keys. Do not add any other text. The arguments must be a JSON object.'' @
     ''For example: {"tool_name": "some_tool.name", "arguments": {"arg1": "value1"}}. '' @
     ''Here are the available tools:\<newline>[]''
   \<and> \<not> sublist ''natural language'' (systemPrompt (formatToolsForPrompt (stub []) []))
   \<and> \<not> sublist ''natural'' (map toLowerCase_char (systemPrompt (formatToolsForPrompt (stub []) [])))
   \<and> \<not> sublist ''no tool'' (map toLowerCase_char (systemPrompt (formatToolsForPrompt (stub []) [])))\<close>
  by code_simp

text \<open>
  Claim C10: the tool call is not validated. The claim says that every extracted
  directive reaches the executor. Before the call, the loop prints the tool name; for
  a tool name that cannot be converted to text (an object with a member
  \<^verbatim>\<open>toString\<close>) this throws, and the executor is not called. What holds: when the
  candidate parses to an object with the two keys and the tool name can be printed (as
  every string can), the executor is called, right after the first query, with the
  values of \<^verbatim>\<open>tool_name\<close> and \<^verbatim>\<open>arguments\<close> as they were parsed. Nothing is
  asked of the tools that the search returned: the theorem holds for every list
  \<open>relevantTools\<close>, also for one without a tool of this name.
\<close>

theorem tool_call_not_validated:
  assumes search: "search_tools env userPrompt 10 w = (Inr relevantTools, w1)"
    and query: "getOpenAIResponse env
                  (messages (systemMessage env relevantTools) h userPrompt) w1 =
                (Inr assistantResponse, w2)"
    and match: "jsonMatch assistantResponse = Some jsonString"
    and parsed: "JSON_parse env jsonString = Some (JObj members)"
    and name: "map_of (rev members) ''tool_name'' = Some toolName"
    and args: "map_of (rev members) ''arguments'' = Some arguments'"
    and named: "js_String toolName = Some nameText"
  shows "\<exists>evs. snd (world (snd (turn (recording env) userPrompt
                  \<lparr>history = h, world = (w, calls)\<rparr>))) =
           calls @
             [SearchTools userPrompt 10,
              ChatCompletion (messages (systemMessage env relevantTools) h userPrompt),
              CallTool toolName arguments'] @ evs"
proof -
  let ?m = "systemMessage env relevantTools"
  let ?q = "messages ?m h userPrompt"
  let ?c2 = "calls @ [SearchTools userPrompt 10, ChatCompletion ?q]"
  let ?c3 = "calls @ [SearchTools userPrompt 10, ChatCompletion ?q, CallTool toolName arguments']"
  let ?t = "turn (recording env) userPrompt \<lparr>history = h, world = (w, calls)\<rparr>"
  have same: "systemMessage (recording env) relevantTools = ?m"
    "toolCall (recording env) assistantResponse = Some (toolName, arguments')"
    using match parsed name args
    by (auto simp add: systemMessage_def formatToolsForPrompt_def toolCall_def recording_def
          directive_object)
  have searched: "search_tools (recording env) userPrompt 10 (w, calls) =
             (Inr relevantTools, (w1, calls @ [SearchTools userPrompt 10]))"
    using search by (simp add: recording_def)
  have asked: "getOpenAIResponse (recording env) ?q (w1, calls @ [SearchTools userPrompt 10]) =
             (Inr assistantResponse, (w2, ?c2))"
    using query
    by (auto simp add: getOpenAIResponse_def recording_def
             split: prod.splits sum.splits list.splits)
  obtain made w3 where "toolOutput env toolName arguments' nameText w2 = (made, w3)"
    by (cases "toolOutput env toolName arguments' nameText w2")
  then have called: "toolOutput (recording env) toolName arguments' nameText (w2, ?c2) =
                  (made, (w3, ?c3))"
    by (auto simp add: toolOutput_def recording_def split: prod.splits sum.splits)
  show ?thesis
  proof (cases made)
    case None
    with searched asked called named have "snd (world (snd ?t)) = ?c3"
      by (simp add: turn_def toolBranch_def push_exchange_def Let_def same)
    then show ?thesis by simp
  next
    case (Some shown)
    let ?f = "followUpMessages ?m
                (h @ [\<lparr>role = user, content = userPrompt\<rparr>,
                      \<lparr>role = assistant, content = assistantResponse\<rparr>]) shown"
    obtain answer w4 where "getOpenAIResponse env ?f w3 = (answer, w4)"
      by (cases "getOpenAIResponse env ?f w3")
    then have followed: "getOpenAIResponse (recording env) ?f (w3, ?c3) =
                    (answer, (w4, ?c3 @ [ChatCompletion ?f]))"
      by (auto simp add: getOpenAIResponse_def recording_def
               split: prod.splits sum.splits list.splits)
    from searched asked called named Some followed
    have "snd (world (snd ?t)) = ?c3 @ [ChatCompletion ?f]"
      by (cases answer)
         (simp_all add: turn_def toolBranch_def push_exchange_def Let_def same)
    then show ?thesis by simp
  qed
qed

text \<open>The catalog holds the echo tool only; the model asks for another tool.\<close>

theorem tool_call_not_validated_witness:
  "''svc.other'' \<notin> set (map name [echo_tool])
   \<and> (\<exists>evs. snd (world (snd (turn (recording (stub [echo_tool])) ''hello''
                \<lparr>history = [], world = (world timeout_session, [])\<rparr>))) =
         [] @
           [SearchTools ''hello'' 10,
            ChatCompletion (messages (systemMessage (stub [echo_tool]) [echo_tool]) [] ''hello''),
            CallTool (JStr ''svc.other'') (JObj [])] @ evs)"
proof -
  let ?env = "stub [echo_tool]"
  let ?w = "[Inr [Some other_call], Inr [Some ''The tool timed out.'']] :: script"
  have w: "world timeout_session = ?w"
    by (simp add: timeout_session_def start_def)
  have search: "search_tools ?env ''hello'' 10 (world timeout_session) = (Inr [echo_tool], ?w)"
    by (simp add: stub_def w)
  have query: "getOpenAIResponse ?env
                 (messages (systemMessage ?env [echo_tool]) [] ''hello'') ?w =
               (Inr other_call, [Inr [Some ''The tool timed out.'']])"
    by (simp add: getOpenAIResponse_def stub_def scripted_def)
  have match: "jsonMatch other_call = Some other_call" by code_simp
  have parsed: "JSON_parse ?env other_call =
      Some (JObj [(''tool_name'', JStr ''svc.other''), (''arguments'', JObj [])])"
    by code_simp
  have name: "map_of (rev [(''tool_name'', JStr ''svc.other''), (''arguments'', JObj [])])
      ''tool_name'' = Some (JStr ''svc.other'')"
    by simp
  have args: "map_of (rev [(''tool_name'', JStr ''svc.other''), (''arguments'', JObj [])])
      ''arguments'' = Some (JObj [])"
    by simp
  have named: "js_String (JStr ''svc.other'') = Some ''svc.other''"
    by simp
  have absent: "''svc.other'' \<notin> set (map name [echo_tool])"
    by (simp add: echo_tool_def)
  show ?thesis
    using absent tool_call_not_validated [OF search query match parsed name args named, of "[]"]
    by (rule conjI)
qed

text \<open>
  A directive whose tool name is an object with a member \<^verbatim>\<open>toString\<close>: it is
  extracted, and the turn ends with a reply without any call of the executor.
\<close>

theorem tool_call_counterexample:
  "toolCall (stub []) unprintable_call =
     Some (JObj [(''toString'', JNum ''1'')], JObj [])
   \<and> fst (turn (recording (stub [])) ''hello'' (recorded unprintable_session)) =
       Reply unprintable_call
   \<and> filter is_tool_call (snd (world (snd (turn (recording (stub [])) ''hello''
        (recorded unprintable_session))))) = []"
  by code_simp

end
